theory Spec2Isabelle
  imports Complex_Main "HOL-Library.AList" "HOL-Library.Char_ord" "HOL-Library.List_Lexorder"
begin

section \<open>Data model (pkg/model/types.go)\<close>

text \<open>
  Go strings are byte strings and are modelled as \<open>string\<close> (lists of \<open>char\<close>, one per byte).
  Several Go structs share field names; the selectors are therefore used in qualified form
  (\<open>BuildData.Textures\<close>, \<open>Live2dModel.Textures\<close>, \<open>Data.Textures\<close>).
\<close>

record BundleFile =
  BundleName :: string
  FileName :: string

record BuildData =
  Model :: BundleFile
  Physics :: BundleFile
  Textures :: "BundleFile list"
  Transition :: BundleFile
  Motions :: "BundleFile list"
  Expressions :: "BundleFile list"

record MotionFile =
  File :: string

record ExpressionFile =
  Name :: string
  File :: string

text \<open>
  \<open>Live2dModel\<close> is the accumulator of one build. Its \<open>Motions\<close> field is a Go
  \<open>map[string][]MotionFile\<close>: it is modelled as an association list with one entry per key,
  the order of the entries standing for the map's unspecified iteration order. A nil slice
  and an empty slice are both \<open>[]\<close>: the code only ever appends to these slices, so a slice
  is nil exactly when it is empty.
\<close>

record Live2dModel =
  Model :: string
  Physics :: string
  Textures :: "string list"
  Motions :: "(string \<times> MotionFile list) list"
  Expressions :: "ExpressionFile list"

section \<open>Library functions used by the downloader\<close>

subsection \<open>Package strings\<close>

definition HasPrefix :: "string \<Rightarrow> string \<Rightarrow> bool" where
  "HasPrefix s pre = (take (length pre) s = pre)"

definition HasSuffix :: "string \<Rightarrow> string \<Rightarrow> bool" where
  "HasSuffix s suf = (length suf \<le> length s \<and> drop (length s - length suf) s = suf)"

fun Contains :: "string \<Rightarrow> string \<Rightarrow> bool" where
  "Contains [] sub = (sub = [])"
| "Contains (c # cs) sub = (HasPrefix (c # cs) sub \<or> Contains cs sub)"

text \<open>
  \<open>strings.Split\<close> for a separator of one byte (the code only splits at \<open>"."\<close>). The result
  always has at least one element, so the source's index \<open>[0]\<close> never panics; \<open>Split_first\<close>
  is that element.
\<close>

fun Split :: "string \<Rightarrow> char \<Rightarrow> string list" where
  "Split [] sep = [[]]"
| "Split (c # cs) sep =
     (if c = sep then [] # Split cs sep
      else (case Split cs sep of
              [] \<Rightarrow> [[c]]
            | y # ys \<Rightarrow> (c # y) # ys))"

definition Split_first :: "string \<Rightarrow> char \<Rightarrow> string" where
  "Split_first s sep = (case Split s sep of [] \<Rightarrow> [] | y # ys \<Rightarrow> y)"

subsection \<open>Package path/filepath\<close>

text \<open>
  \<open>filepath.Base\<close> with \<open>/\<close> as the separator: trailing separators are dropped, then the
  last element is taken; the empty path gives \<open>.\<close> and a path of separators only gives \<open>/\<close>.
\<close>

definition strip_trailing_slashes :: "string \<Rightarrow> string" where
  "strip_trailing_slashes p = rev (dropWhile (\<lambda>c. c = CHR ''/'') (rev p))"

definition last_element :: "string \<Rightarrow> string" where
  "last_element p = rev (takeWhile (\<lambda>c. c \<noteq> CHR ''/'') (rev p))"

definition Base :: "string \<Rightarrow> string" where
  "Base p =
     (if p = [] then ''.''
      else let q = last_element (strip_trailing_slashes p)
           in if q = [] then ''/'' else q)"

text \<open>
  The part of a file name left when its extension is removed, the extension being the
  suffix that begins at the final dot (\<open>filepath.Ext\<close>); a name without a dot is unchanged.
  This definition is not taken from the downloader: it spells out the words
  ``base name without extension'' so that they can be compared with what the code computes.
\<close>

definition name_without_extension :: "string \<Rightarrow> string" where
  "name_without_extension b =
     (if CHR ''.'' \<in> set b then rev (tl (dropWhile (\<lambda>c. c \<noteq> CHR ''.'') (rev b))) else b)"

section \<open>Classification and accumulation (pkg/downloader/downloader.go)\<close>

definition getFileType :: "string \<Rightarrow> string" where
  "getFileType filePath =
     (if HasSuffix filePath ''model.moc'' then ''model''
      else if HasSuffix filePath ''physics.json'' then ''physics''
      else if Contains filePath ''textures'' then ''texture''
      else if Contains filePath ''motions'' then ''motion''
      else if Contains filePath ''expressions'' then ''expression''
      else ''unknown'')"

definition updateModelData :: "Live2dModel \<Rightarrow> string \<Rightarrow> string \<Rightarrow> Live2dModel" where
  "updateModelData model filePath relPath =
     (let t = getFileType filePath in
      if t = ''model'' then model\<lparr>Live2dModel.Model := relPath\<rparr>
      else if t = ''physics'' then model\<lparr>Live2dModel.Physics := relPath\<rparr>
      else if t = ''texture'' then
        model\<lparr>Live2dModel.Textures := Live2dModel.Textures model @ [relPath]\<rparr>
      else if t = ''motion'' then
        (let motionName = Split_first (Base filePath) CHR ''.''
         in model\<lparr>Live2dModel.Motions :=
                    AList.update motionName [\<lparr>MotionFile.File = relPath\<rparr>]
                      (Live2dModel.Motions model)\<rparr>)
      else if t = ''expression'' then
        (let expressionName = Split_first (Base filePath) CHR ''.''
         in model\<lparr>Live2dModel.Expressions := Live2dModel.Expressions model @
                    [\<lparr>ExpressionFile.Name = expressionName, ExpressionFile.File = relPath\<rparr>]\<rparr>)
      else model)"

text \<open>The accumulator \<open>NewLive2dBuilder\<close> starts from: zero values and an empty map.\<close>

definition new_model :: Live2dModel where
  "new_model = \<lparr>Live2dModel.Model = [], Live2dModel.Physics = [], Live2dModel.Textures = [],
                Live2dModel.Motions = [], Live2dModel.Expressions = []\<rparr>"

text \<open>A sequence of accumulator updates, each a pair of a file path and a relative path.\<close>

fun update_all :: "Live2dModel \<Rightarrow> (string \<times> string) list \<Rightarrow> Live2dModel" where
  "update_all model [] = model"
| "update_all model ((filePath, relPath) # rest) =
     update_all (updateModelData model filePath relPath) rest"

text \<open>Every motion name is stored once and maps to exactly one file.\<close>

definition one_file_per_motion :: "Live2dModel \<Rightarrow> bool" where
  "one_file_per_motion model =
     (distinct (map fst (Live2dModel.Motions model)) \<and>
      list_all (\<lambda>kv. length (snd kv) = 1) (Live2dModel.Motions model))"

section \<open>The environment of a build\<close>

text \<open>
  Errors are values. The source builds them with \<open>errors.New\<close> and \<open>fmt.Errorf\<close>; one
  constructor stands for each message, named after the error taxonomy where there is one:
  \<^item> \<open>CancelledError\<close>: ``download cancelled'' (the context was done);
  \<^item> \<open>RequestError\<close>: the request could not be created; \<open>TransportError\<close>: \<open>httpClient.Do\<close> failed;
  \<^item> \<open>HTTPStatusError c\<close>: ``HTTP error: c''; \<open>ContentMismatchError\<close>: ``file does not exist or
    cannot be accessed'' (an HTML page was served);
  \<^item> \<open>MkdirError\<close>, \<open>CreateError\<close>, \<open>CopyCancelledError\<close>, \<open>CopyError\<close>: the file could not be made
    or written;
  \<^item> \<open>DownloadFailed e\<close>: the worker's wrapping ``download failed: e''; \<open>RelError\<close>: no relative path;
  \<^item> \<open>MarshalError\<close>, \<open>WriteManifestError\<close>: the manifest could not be serialised or written.
\<close>

datatype error =
    CancelledError
  | RequestError
  | TransportError
  | HTTPStatusError int
  | ContentMismatchError
  | MkdirError
  | CreateError
  | CopyCancelledError
  | CopyError
  | DownloadFailed error
  | RelError
  | MarshalError
  | WriteManifestError

record Response =
  StatusCode :: int
  ContentType :: string
  Body :: string

text \<open>
  How a stream copy ends: completely, or after some bytes with a context error or with
  another error. How \<open>os.WriteFile\<close> ends: completely, without having opened the file, or
  after the file was truncated and some bytes were written (the documentation of
  \<open>os.WriteFile\<close>: a failure mid-operation can leave the file in a partially written state).
\<close>

datatype copy_outcome = CopyOK | CopyInterrupted nat | CopyBroken nat

datatype write_outcome = WriteOK | WriteNotOpened | WritePartial nat

text \<open>
  The places where the code looks at the cancellation signal: the gate, the sending of the
  \<open>i\<close>-th task, the worker that dequeued the \<open>i\<close>-th task, the fetch of the \<open>i\<close>-th task, and
  the wait for the \<open>i\<close>-th outcome.
\<close>

datatype site = AtGate | AtSend nat | AtWorker nat | AtFetch nat | AtReceive nat

text \<open>
  Everything a build reads from outside: the configuration, the path functions of the
  platform (\<open>filepath.Join\<close>, \<open>Dir\<close>, \<open>Rel\<close>, \<open>ToSlash\<close>), the remote host (one answer per
  URL, \<open>None\<close> for a transport failure), the failures of the file system, the choice each
  \<open>select\<close> on the context makes, and the two leaf encoders of \<open>encoding/json\<close> (a string as
  a JSON string literal, a \<open>float64\<close> as a JSON number). \<open>os_Stat_other p\<close> says that
  \<open>os.Stat p\<close> does not report ``not exist'' although no regular file is recorded at \<open>p\<close>
  (a directory, or an error other than ``not exist'').
\<close>

record env =
  BaseAssetsURL :: string
  MaxConcurrentDownloads :: int
  filepath_Join :: "string \<Rightarrow> string \<Rightarrow> string"
  filepath_Dir :: "string \<Rightarrow> string"
  filepath_Rel :: "string \<Rightarrow> string \<Rightarrow> string option"
  filepath_ToSlash :: "string \<Rightarrow> string"
  http_NewRequest_fails :: "string \<Rightarrow> bool"
  http_Do :: "string \<Rightarrow> Response option"
  os_Stat_other :: "string \<Rightarrow> bool"
  os_MkdirAll_fails :: "string \<Rightarrow> bool"
  os_Create_fails :: "string \<Rightarrow> bool"
  io_Copy :: "string \<Rightarrow> copy_outcome"
  os_WriteFile :: "string \<Rightarrow> write_outcome"
  ctx_Done :: "site \<Rightarrow> bool"
  json_string :: "string \<Rightarrow> string"
  json_float :: "real \<Rightarrow> string"

text \<open>
  The context of a build is \<open>context.Background()\<close>, which is never done, or the context of
  the TUI model.
\<close>

datatype "context" = Background | TuiCtx

definition observed :: "env \<Rightarrow> context \<Rightarrow> site \<Rightarrow> bool" where
  "observed e ctx s = (ctx = TuiCtx \<and> ctx_Done e s)"

text \<open>
  What the builder's own goroutine does to the outside, in order. The transfers made by the
  workers are not events: they run concurrently and show in the files.
\<close>

datatype event =
    Acquire
  | Release
  | MkdirAll string
  | AddDownloadItem string nat
  | UpdateProgress string nat
  | SetError string
  | SendError string error
  | StartWorkerPool nat
  | Enqueue string
  | CloseQueue
  | WriteFile string

text \<open>
  The shared state: the regular files on disk with their contents, the number of tokens in
  the gate channel \<open>modelSem\<close>, and the events so far.
\<close>

record world =
  files :: "string \<rightharpoonup> string"
  modelSem :: nat
  events :: "event list"

text \<open>
  A buffered channel is its buffer; a send on a full buffer that nobody receives from
  blocks (\<open>None\<close>).
\<close>

definition chan_send :: "nat \<Rightarrow> 'a list \<Rightarrow> 'a \<Rightarrow> 'a list option" where
  "chan_send cap buf v = (if length buf < cap then Some (buf @ [v]) else None)"

record downloadResult =
  relPath :: string
  err :: "error option"

text \<open>
  The field \<open>result\<close> is the buffer of the task's own channel, \<open>make(chan downloadResult, 1)\<close>.
\<close>

record downloadTask =
  bundleFile :: BundleFile
  filePath :: string
  allowNotFound :: bool
  result :: "downloadResult list"

text \<open>The TUI model may be absent, and so may its context.\<close>

record TuiModel =
  Ctx :: "context option"

record Downloader =
  savePath :: string
  TuiModel :: "TuiModel option"
  modelSem_cap :: nat

record Live2dBuilder =
  path :: string
  data :: BuildData
  model :: Live2dModel
  dataPath :: string
  downloader :: Downloader
  ModelName :: string

definition NewLive2dBuilder ::
  "env \<Rightarrow> string \<Rightarrow> BuildData \<Rightarrow> Downloader \<Rightarrow> string \<Rightarrow> Live2dBuilder" where
  "NewLive2dBuilder e p buildData d modelName =
     \<lparr>path = p, data = buildData, model = new_model, dataPath = filepath_Join e p ''data'',
      downloader = d, ModelName = modelName\<rparr>"

section \<open>The asset fetcher\<close>

definition createDownloadRequest :: "env \<Rightarrow> BundleFile \<Rightarrow> error + string" where
  "createDownloadRequest e bf =
     (let url = BaseAssetsURL e @ ''/'' @ BundleName bf @ ''_rip/'' @ FileName bf
      in if http_NewRequest_fails e url then Inl RequestError else Inr url)"

definition validateResponse :: "Response \<Rightarrow> bool \<Rightarrow> error option" where
  "validateResponse resp allowNF =
     (if StatusCode resp \<noteq> 200 then
        (if allowNF \<and> StatusCode resp = 404 then None
         else Some (HTTPStatusError (StatusCode resp)))
      else if HasPrefix (ContentType resp) ''text/html'' then Some ContentMismatchError
      else None)"

definition createFileAndDirectory ::
  "env \<Rightarrow> string \<Rightarrow> (string \<rightharpoonup> string) \<Rightarrow> error + (string \<rightharpoonup> string)" where
  "createFileAndDirectory e fp fs =
     (if os_MkdirAll_fails e (filepath_Dir e fp) then Inl MkdirError
      else if os_Create_fails e fp then Inl CreateError
      else Inr (fs(fp \<mapsto> [])))"

definition writeFileContent ::
  "env \<Rightarrow> Response \<Rightarrow> string \<Rightarrow> (string \<rightharpoonup> string) \<Rightarrow> error option \<times> (string \<rightharpoonup> string)" where
  "writeFileContent e resp fp fs =
     (case io_Copy e fp of
        CopyOK \<Rightarrow> (None, fs(fp \<mapsto> Body resp))
      | CopyInterrupted n \<Rightarrow> (Some CopyCancelledError, fs(fp \<mapsto> take n (Body resp)))
      | CopyBroken n \<Rightarrow> (Some CopyError, fs(fp \<mapsto> take n (Body resp))))"

text \<open>
  \<open>DownloadBundleFile\<close>; \<open>cancelled\<close> says whether the context is done when the call starts.
\<close>

definition DownloadBundleFile ::
  "env \<Rightarrow> bool \<Rightarrow> BundleFile \<Rightarrow> string \<Rightarrow> bool \<Rightarrow> (string \<rightharpoonup> string)
     \<Rightarrow> error option \<times> (string \<rightharpoonup> string)" where
  "DownloadBundleFile e cancelled bf fp allowNF fs =
     (if cancelled then (Some CancelledError, fs)
      else case createDownloadRequest e bf of
        Inl er \<Rightarrow> (Some er, fs)
      | Inr url \<Rightarrow>
          (case http_Do e url of
             None \<Rightarrow> (Some TransportError, fs)
           | Some resp \<Rightarrow>
               (case validateResponse resp allowNF of
                  Some er \<Rightarrow> (Some er, fs)
                | None \<Rightarrow>
                    if allowNF \<and> StatusCode resp = 404 then (None, fs)
                    else (case createFileAndDirectory e fp fs of
                            Inl er \<Rightarrow> (Some er, fs)
                          | Inr fs' \<Rightarrow> writeFileContent e resp fp fs'))))"

section \<open>The model builder\<close>

subsection \<open>Scanning: prepareDownloadTasks and processExistingFiles\<close>

text \<open>\<open>os.IsNotExist\<close> of the error of \<open>os.Stat\<close>.\<close>

definition stat_not_exist :: "env \<Rightarrow> (string \<rightharpoonup> string) \<Rightarrow> string \<Rightarrow> bool" where
  "stat_not_exist e fs p = (fs p = None \<and> \<not> os_Stat_other e p)"

text \<open>
  One step of \<open>prepareDownloadTasks\<close>: a file that is reported missing becomes a task with a
  fresh result channel, any other file joins the existing files.
\<close>

definition check_file ::
  "env \<Rightarrow> (string \<rightharpoonup> string) \<Rightarrow> BundleFile \<Rightarrow> string \<Rightarrow> bool
     \<Rightarrow> downloadTask list \<times> string list \<Rightarrow> downloadTask list \<times> string list" where
  "check_file e fs bf file allowNF acc =
     (if stat_not_exist e fs file then
        (fst acc @ [\<lparr>bundleFile = bf, filePath = file, allowNotFound = allowNF, result = []\<rparr>],
         snd acc)
      else (fst acc, snd acc @ [file]))"

text \<open>The three loops of \<open>prepareDownloadTasks\<close> over a list of bundle files in a directory.\<close>

fun check_files ::
  "env \<Rightarrow> (string \<rightharpoonup> string) \<Rightarrow> string \<Rightarrow> BundleFile list
     \<Rightarrow> downloadTask list \<times> string list \<Rightarrow> downloadTask list \<times> string list" where
  "check_files e fs dir [] acc = acc"
| "check_files e fs dir (bf # bfs) acc =
     check_files e fs dir bfs (check_file e fs bf (filepath_Join e dir (FileName bf)) False acc)"

definition prepareDownloadTasks ::
  "env \<Rightarrow> Live2dBuilder \<Rightarrow> (string \<rightharpoonup> string) \<Rightarrow> downloadTask list \<times> string list" where
  "prepareDownloadTasks e b fs =
     (let acc0 = ([], []);
          modelFile = filepath_Join e (dataPath b) ''model.moc'';
          acc1 = check_file e fs (BuildData.Model (data b)) modelFile False acc0;
          physicsFile = filepath_Join e (dataPath b) ''physics.json'';
          acc2 = check_file e fs (BuildData.Physics (data b)) physicsFile True acc1;
          texturePath = filepath_Join e (dataPath b) ''textures'';
          acc3 = check_files e fs texturePath (BuildData.Textures (data b)) acc2;
          motionPath = filepath_Join e (dataPath b) ''motions'';
          acc4 = check_files e fs motionPath (BuildData.Motions (data b)) acc3;
          expressionPath = filepath_Join e (dataPath b) ''expressions''
      in check_files e fs expressionPath (BuildData.Expressions (data b)) acc4)"

text \<open>
  The destination paths of the required files, in the order in which
  \<open>prepareDownloadTasks\<close> visits them.
\<close>

definition required_files :: "env \<Rightarrow> Live2dBuilder \<Rightarrow> string list" where
  "required_files e b =
     [filepath_Join e (dataPath b) ''model.moc'', filepath_Join e (dataPath b) ''physics.json'']
     @ map (\<lambda>bf. filepath_Join e (filepath_Join e (dataPath b) ''textures'') (FileName bf))
         (BuildData.Textures (data b))
     @ map (\<lambda>bf. filepath_Join e (filepath_Join e (dataPath b) ''motions'') (FileName bf))
         (BuildData.Motions (data b))
     @ map (\<lambda>bf. filepath_Join e (filepath_Join e (dataPath b) ''expressions'') (FileName bf))
         (BuildData.Expressions (data b))"

definition has_tui :: "Live2dBuilder \<Rightarrow> bool" where
  "has_tui b = (TuiModel (downloader b) \<noteq> None)"

definition tui_event :: "Live2dBuilder \<Rightarrow> event \<Rightarrow> world \<Rightarrow> world" where
  "tui_event b ev w = (if has_tui b then w\<lparr>events := events w @ [ev]\<rparr> else w)"

text \<open>
  \<open>processExistingFiles\<close> returns the number of files folded in, the error if any, and the
  builder and the world it leaves.
\<close>

fun processExistingFiles ::
  "env \<Rightarrow> Live2dBuilder \<Rightarrow> string list \<Rightarrow> nat \<Rightarrow> world
     \<Rightarrow> nat \<times> error option \<times> Live2dBuilder \<times> world" where
  "processExistingFiles e b [] completedFiles w = (completedFiles, None, b, w)"
| "processExistingFiles e b (file # rest) completedFiles w =
     (case filepath_Rel e (path b) file of
        None \<Rightarrow> (completedFiles, Some RelError, b, w)
      | Some rel \<Rightarrow>
          processExistingFiles e
            (b\<lparr>model := updateModelData (model b) file (filepath_ToSlash e rel)\<rparr>)
            rest (completedFiles + 1)
            (tui_event b (UpdateProgress (ModelName b) (completedFiles + 1)) w))"

subsection \<open>The worker pool\<close>

text \<open>
  The pool: the workers still running, the buffer of \<open>errorChan\<close> (capacity 1, never
  received from), and the workers that are blocked for ever on a full result channel, on a
  full \<open>errorChan\<close>, or on a task queue that is never closed.
\<close>

record pool =
  alive :: nat
  errorChan :: "error list"
  blocked_on_result :: nat
  blocked_on_errorChan :: nat
  blocked_on_queue :: nat

text \<open>What a worker sends for a task it has fetched.\<close>

definition worker_result ::
  "env \<Rightarrow> Live2dBuilder \<Rightarrow> downloadTask \<Rightarrow> error option \<Rightarrow> downloadResult" where
  "worker_result e b t downloadErr =
     (case downloadErr of
        Some er \<Rightarrow> \<lparr>relPath = [], err = Some (DownloadFailed er)\<rparr>
      | None \<Rightarrow>
          (case filepath_Rel e (path b) (filePath t) of
             None \<Rightarrow> \<lparr>relPath = [], err = Some RelError\<rparr>
           | Some rel \<Rightarrow> \<lparr>relPath = filepath_ToSlash e rel, err = None\<rparr>))"

text \<open>
  The workers of \<open>startWorkerPool\<close>, run on the queued tasks in queue order, task number
  \<open>i\<close> first. A task that no running worker is left for stays as it is. A worker that sees
  the cancellation sends on \<open>errorChan\<close> and ends, without an outcome for its task. The
  function returns the tasks with their result channels, the pool and the files.
\<close>

fun run_workers ::
  "env \<Rightarrow> context \<Rightarrow> Live2dBuilder \<Rightarrow> nat \<Rightarrow> downloadTask list \<Rightarrow> pool
     \<Rightarrow> (string \<rightharpoonup> string) \<Rightarrow> downloadTask list \<times> pool \<times> (string \<rightharpoonup> string)" where
  "run_workers e ctx b i [] pl fs = ([], pl, fs)"
| "run_workers e ctx b i (t # ts) pl fs =
     (if alive pl = 0 then (t # ts, pl, fs)
      else if observed e ctx (AtWorker i) then
        (let pl' = (case chan_send 1 (errorChan pl) CancelledError of
                      Some buf \<Rightarrow> pl\<lparr>alive := alive pl - 1, errorChan := buf\<rparr>
                    | None \<Rightarrow> pl\<lparr>alive := alive pl - 1,
                                 blocked_on_errorChan := blocked_on_errorChan pl + 1\<rparr>);
             (ts', pl'', fs') = run_workers e ctx b (i + 1) ts pl' fs
         in (t # ts', pl'', fs'))
      else
        (let (downloadErr, fs1) =
               DownloadBundleFile e (observed e ctx (AtFetch i)) (bundleFile t) (filePath t)
                 (allowNotFound t) fs;
             r = worker_result e b t downloadErr
         in case chan_send 1 (result t) r of
              Some buf \<Rightarrow>
                (let (ts', pl', fs') = run_workers e ctx b (i + 1) ts pl fs1
                 in (t\<lparr>result := buf\<rparr> # ts', pl', fs'))
            | None \<Rightarrow>
                (let (ts', pl', fs') =
                       run_workers e ctx b (i + 1) ts
                         (pl\<lparr>alive := alive pl - 1,
                             blocked_on_result := blocked_on_result pl + 1\<rparr>) fs1
                 in (t # ts', pl', fs'))))"

text \<open>
  The sending loop of \<open>handleDownloadTasks\<close>: the tasks put on the queue, and whether the
  loop was left because of the cancellation.
\<close>

fun send_tasks :: "env \<Rightarrow> context \<Rightarrow> nat \<Rightarrow> downloadTask list \<Rightarrow> downloadTask list \<times> bool" where
  "send_tasks e ctx i [] = ([], False)"
| "send_tasks e ctx i (t # ts) =
     (if observed e ctx (AtSend i) then ([], True)
      else (let (sent, cancelled) = send_tasks e ctx (i + 1) ts in (t # sent, cancelled)))"

subsection \<open>Consuming the outcomes\<close>

text \<open>
  \<open>processDownloadResults\<close>, from task number \<open>i\<close> on. Each round is one \<open>select\<close>: it takes
  the cancellation branch when the environment says so; otherwise it receives from the
  task's result channel, and when nothing is there (and nothing will come) it blocks for
  ever, which is the value \<open>None\<close>. The tasks are returned with what is left in their
  channels.
\<close>

fun processDownloadResults ::
  "env \<Rightarrow> context \<Rightarrow> Live2dBuilder \<Rightarrow> nat \<Rightarrow> downloadTask list \<Rightarrow> nat \<Rightarrow> world
     \<Rightarrow> (error option \<times> Live2dBuilder \<times> world \<times> downloadTask list) option" where
  "processDownloadResults e ctx b i [] completedFiles w = Some (None, b, w, [])"
| "processDownloadResults e ctx b i (t # ts) completedFiles w =
     (if observed e ctx (AtReceive i) then Some (Some CancelledError, b, w, t # ts)
      else case result t of
        [] \<Rightarrow> None
      | r # buf \<Rightarrow>
          (case err r of
             Some er \<Rightarrow> Some (Some er, b, w, t\<lparr>result := buf\<rparr> # ts)
           | None \<Rightarrow>
               (case processDownloadResults e ctx
                       (b\<lparr>model := updateModelData (model b) (filePath t) (relPath r)\<rparr>)
                       (i + 1) ts (completedFiles + 1)
                       (tui_event b (UpdateProgress (ModelName b) (completedFiles + 1)) w) of
                  None \<Rightarrow> None
                | Some (r', b', w', ts') \<Rightarrow> Some (r', b', w', t\<lparr>result := buf\<rparr> # ts'))))"

definition new_pool :: "nat \<Rightarrow> pool" where
  "new_pool n = \<lparr>alive = n, errorChan = [], blocked_on_result = 0, blocked_on_errorChan = 0,
                 blocked_on_queue = 0\<rparr>"

text \<open>
  \<open>handleDownloadTasks\<close>. The workers run concurrently with the builder; the files and the
  pool returned are those reached once the workers have gone through the queue, which may
  be after the builder has returned. When the sending loop is left because of the
  cancellation the queue is never closed and the running workers stay blocked on it.
\<close>

definition handleDownloadTasks ::
  "env \<Rightarrow> context \<Rightarrow> Live2dBuilder \<Rightarrow> downloadTask list \<Rightarrow> nat \<Rightarrow> world
     \<Rightarrow> (error option \<times> Live2dBuilder \<times> world \<times> downloadTask list \<times> pool) option" where
  "handleDownloadTasks e ctx b tasks completedFiles w =
     (if tasks = [] then Some (None, b, w, [], new_pool 0)
      else
        (let n = nat (MaxConcurrentDownloads e);
             (sent, cancelled) = send_tasks e ctx 0 tasks;
             (done, pl, fs) = run_workers e ctx b 0 sent (new_pool n) (files w);
             w1 = w\<lparr>files := fs,
                    events := events w @ [StartWorkerPool n] @ map (\<lambda>t. Enqueue (filePath t)) sent\<rparr>
         in if cancelled then
              Some (Some CancelledError, b, w1, done @ drop (length sent) tasks,
                    pl\<lparr>alive := 0, blocked_on_queue := alive pl\<rparr>)
            else
              (case processDownloadResults e ctx b 0 done completedFiles
                      (w1\<lparr>events := events w1 @ [CloseQueue]\<rparr>) of
                 None \<Rightarrow> None
               | Some (r, b', w', ts') \<Rightarrow>
                   (case r of
                      Some er \<Rightarrow>
                        Some (Some er, b', tui_event b (SendError (ModelName b) er) w', ts',
                              pl\<lparr>alive := 0\<rparr>)
                    | None \<Rightarrow> Some (None, b', w', ts', pl\<lparr>alive := 0\<rparr>)))))"

subsection \<open>The output manifest\<close>

record Data =
  Version :: string
  Layout :: "(string \<times> real) list"
  HitAreasCustom :: "(string \<times> real list) list"
  Model :: string
  Physics :: string
  Textures :: "string list"
  Motions :: "(string \<times> MotionFile list) list"
  Expressions :: "ExpressionFile list"

text \<open>
  \<open>json.MarshalIndent(v, "", "  ")\<close>, as far as the type \<open>Data\<close> needs it: a value becomes a
  JSON tree (a struct is an object with its fields in declaration order, a map is an object
  with its keys sorted bytewise, a nil slice is \<open>null\<close>), and the tree is printed with every
  member and element on a line of its own, indented by two spaces per level.
\<close>

datatype json = JNull | JString string | JNumber real | JArray "json list"
  | JObject "(string \<times> json) list"

definition newline :: string where
  "newline = [CHR 0x0A]"

definition indent :: "nat \<Rightarrow> string" where
  "indent d = concat (replicate d ''  '')"

fun render :: "env \<Rightarrow> nat \<Rightarrow> json \<Rightarrow> string"
  and render_elements :: "env \<Rightarrow> nat \<Rightarrow> json list \<Rightarrow> string"
  and render_members :: "env \<Rightarrow> nat \<Rightarrow> (string \<times> json) list \<Rightarrow> string" where
  "render e d JNull = ''null''"
| "render e d (JString s) = json_string e s"
| "render e d (JNumber x) = json_float e x"
| "render e d (JArray xs) =
     (if xs = [] then ''[]''
      else ''['' @ render_elements e (d + 1) xs @ newline @ indent d @ '']'')"
| "render e d (JObject ms) =
     (if ms = [] then ''{}''
      else ''{'' @ render_members e (d + 1) ms @ newline @ indent d @ ''}'')"
| "render_elements e d [] = []"
| "render_elements e d (x # xs) =
     newline @ indent d @ render e d x @ (if xs = [] then [] else '','') @ render_elements e d xs"
| "render_members e d [] = []"
| "render_members e d (kv # ms) =
     newline @ indent d @ json_string e (fst kv) @ '': '' @ render e d (snd kv)
       @ (if ms = [] then [] else '','') @ render_members e d ms"

definition json_slice :: "json list \<Rightarrow> json" where
  "json_slice xs = (if xs = [] then JNull else JArray xs)"

definition json_map :: "('a \<Rightarrow> json) \<Rightarrow> (string \<times> 'a) list \<Rightarrow> json" where
  "json_map f m = JObject (map (\<lambda>kv. (fst kv, f (snd kv))) (sort_key fst m))"

definition MotionFile_json :: "MotionFile \<Rightarrow> json" where
  "MotionFile_json mf = JObject [(''file'', JString (MotionFile.File mf))]"

definition ExpressionFile_json :: "ExpressionFile \<Rightarrow> json" where
  "ExpressionFile_json ef =
     JObject [(''name'', JString (ExpressionFile.Name ef)),
              (''file'', JString (ExpressionFile.File ef))]"

definition Data_json :: "Data \<Rightarrow> json" where
  "Data_json d =
     JObject
       [(''version'', JString (Version d)),
        (''layout'', json_map JNumber (Layout d)),
        (''hit_areas_custom'', json_map (\<lambda>xs. json_slice (map JNumber xs)) (HitAreasCustom d)),
        (''model'', JString (Data.Model d)),
        (''physics'', JString (Data.Physics d)),
        (''textures'', json_slice (map JString (Data.Textures d))),
        (''motions'', json_map (\<lambda>fs. json_slice (map MotionFile_json fs)) (Data.Motions d)),
        (''expressions'', json_slice (map ExpressionFile_json (Data.Expressions d)))]"

text \<open>Serialising a \<open>Data\<close> value has no failing case.\<close>

definition MarshalIndent :: "env \<Rightarrow> Data \<Rightarrow> error + string" where
  "MarshalIndent e d = Inr (render e 0 (Data_json d))"

text \<open>The struct literal of \<open>createModelData\<close>.\<close>

definition modelData :: "Live2dBuilder \<Rightarrow> Data" where
  "modelData b =
     \<lparr>Version = ''Sample 1.0.0'',
      Layout = [(''center_x'', 0), (''center_y'', 0), (''width'', 2)],
      HitAreasCustom =
        [(''head_x'', [- 0.25, 1]), (''head_y'', [0.25, 0.2]),
         (''body_x'', [- 0.3, 0.2]), (''body_y'', [0.3, - 1.9])],
      Data.Model = Live2dModel.Model (model b),
      Data.Physics = Live2dModel.Physics (model b),
      Data.Textures = Live2dModel.Textures (model b),
      Data.Motions = Live2dModel.Motions (model b),
      Data.Expressions = Live2dModel.Expressions (model b)\<rparr>"

definition createModelData :: "env \<Rightarrow> Live2dBuilder \<Rightarrow> world \<Rightarrow> error option \<times> world" where
  "createModelData e b w =
     (case MarshalIndent e (modelData b) of
        Inl er \<Rightarrow> (Some MarshalError, tui_event b (SetError (ModelName b)) w)
      | Inr finalJSON \<Rightarrow>
          (let modelJSONPath = filepath_Join e (path b) ''model.json'';
               w1 = w\<lparr>events := events w @ [WriteFile modelJSONPath]\<rparr>
           in case os_WriteFile e modelJSONPath of
                WriteOK \<Rightarrow> (None, w1\<lparr>files := (files w1)(modelJSONPath \<mapsto> finalJSON)\<rparr>)
              | WriteNotOpened \<Rightarrow> (Some WriteManifestError, w1)
              | WritePartial n \<Rightarrow>
                  (Some WriteManifestError,
                   w1\<lparr>files := (files w1)(modelJSONPath \<mapsto> take n finalJSON)\<rparr>)))"

subsection \<open>Construct and the model concurrency gate\<close>

definition build_context :: "Live2dBuilder \<Rightarrow> context" where
  "build_context b =
     (case TuiModel (downloader b) of
        None \<Rightarrow> Background
      | Some t \<Rightarrow> (case Ctx t of None \<Rightarrow> Background | Some c \<Rightarrow> c))"

text \<open>
  Releasing the gate is a receive from \<open>modelSem\<close>; it would block on an empty channel.
\<close>

definition release :: "world \<Rightarrow> world option" where
  "release w =
     (if modelSem w = 0 then None
      else Some (w\<lparr>modelSem := modelSem w - 1, events := events w @ [Release]\<rparr>))"

text \<open>
  \<open>setupDownloadEnvironment\<close>. The \<open>select\<close> takes the cancellation branch when the
  environment says so; otherwise it sends on \<open>modelSem\<close>, which blocks for ever (\<open>None\<close>) when
  the channel is full and nobody else releases.
\<close>

definition setupDownloadEnvironment ::
  "env \<Rightarrow> Live2dBuilder \<Rightarrow> world \<Rightarrow> ((error + context) \<times> world) option" where
  "setupDownloadEnvironment e b w =
     (let ctx = build_context b in
      if observed e ctx AtGate then Some (Inl CancelledError, w)
      else if modelSem w < modelSem_cap (downloader b) then
        (let w1 = w\<lparr>modelSem := modelSem w + 1,
                     events := events w @ [Acquire, MkdirAll (dataPath b)]\<rparr>
         in if os_MkdirAll_fails e (dataPath b) then
              (case release (tui_event b (SetError (ModelName b)) w1) of
                 None \<Rightarrow> None
               | Some w2 \<Rightarrow> Some (Inl MkdirError, w2))
            else Some (Inr ctx, w1))
      else None)"

definition initializeDownloadProgress :: "Live2dBuilder \<Rightarrow> world \<Rightarrow> world" where
  "initializeDownloadProgress b w =
     (let totalFiles = 1 + 1 + length (BuildData.Textures (data b))
                        + length (BuildData.Motions (data b))
                        + length (BuildData.Expressions (data b))
      in tui_event b (AddDownloadItem (ModelName b) totalFiles) w)"

text \<open>The part of \<open>Construct\<close> that runs between the acquisition and the deferred release.\<close>

definition Construct_body ::
  "env \<Rightarrow> context \<Rightarrow> Live2dBuilder \<Rightarrow> world \<Rightarrow> (error option \<times> Live2dBuilder \<times> world) option" where
  "Construct_body e ctx b w =
     (let w1 = initializeDownloadProgress b w;
          (tasks, existingFiles) = prepareDownloadTasks e b (files w1);
          (completedFiles, er, b1, w2) = processExistingFiles e b existingFiles 0 w1
      in case er of
           Some x \<Rightarrow> Some (Some x, b1, tui_event b (SendError (ModelName b) x) w2)
         | None \<Rightarrow>
             (case handleDownloadTasks e ctx b1 tasks completedFiles w2 of
                None \<Rightarrow> None
              | Some (r, b2, w3, ts, pl) \<Rightarrow>
                  (case r of
                     Some x \<Rightarrow> Some (Some x, b2, w3)
                   | None \<Rightarrow> (let (r', w4) = createModelData e b2 w3 in Some (r', b2, w4)))))"

text \<open>
  \<open>Construct\<close>: the error it returns (\<open>None\<close> for nil), the builder and the world; the whole
  value is \<open>None\<close> when the call never returns.
\<close>

definition Construct ::
  "env \<Rightarrow> Live2dBuilder \<Rightarrow> world \<Rightarrow> (error option \<times> Live2dBuilder \<times> world) option" where
  "Construct e b w =
     (case setupDownloadEnvironment e b w of
        None \<Rightarrow> None
      | Some (Inl er, w1) \<Rightarrow> Some (Some er, b, w1)
      | Some (Inr ctx, w1) \<Rightarrow>
          (case Construct_body e ctx b w1 of
             None \<Rightarrow> None
           | Some (r, b', w2) \<Rightarrow>
               (case release w2 of
                  None \<Rightarrow> None
                | Some w3 \<Rightarrow> Some (r, b', w3))))"







section \<open>Notions used to state the properties\<close>

text \<open>
  The outcome a worker delivers for a task when it sees no cancellation. Whether a fetch
  fails does not depend on the files already on disk, so the fetch is run on an empty disk.
\<close>

definition delivered :: "env \<Rightarrow> Live2dBuilder \<Rightarrow> downloadTask \<Rightarrow> downloadResult" where
  "delivered e b t =
     worker_result e b t
       (fst (DownloadBundleFile e False (bundleFile t) (filePath t) (allowNotFound t) Map.empty))"

definition succeeds :: "env \<Rightarrow> Live2dBuilder \<Rightarrow> downloadTask \<Rightarrow> bool" where
  "succeeds e b t = (err (delivered e b t) = None)"

text \<open>
  The error of the first task, in task order, whose delivered outcome carries one.
\<close>

definition first_error :: "env \<Rightarrow> Live2dBuilder \<Rightarrow> downloadTask list \<Rightarrow> error option" where
  "first_error e b tasks =
     (case dropWhile (succeeds e b) tasks of [] \<Rightarrow> None | t # rest \<Rightarrow> err (delivered e b t))"

text \<open>
  The result channels after the builder has consumed outcomes up to the first error: empty
  for the tasks up to and including the first failing one, still holding the outcome for
  every later task.
\<close>

definition channels_left :: "env \<Rightarrow> Live2dBuilder \<Rightarrow> downloadTask list \<Rightarrow> downloadResult list list" where
  "channels_left e b tasks =
     map (\<lambda>t. []) (takeWhile (succeeds e b) tasks)
     @ (case dropWhile (succeeds e b) tasks of
          [] \<Rightarrow> []
        | t # rest \<Rightarrow> [] # map (\<lambda>t'. [delivered e b t']) rest)"

text \<open>The accumulator updates of the tasks consumed before the first error.\<close>

definition folded :: "env \<Rightarrow> Live2dBuilder \<Rightarrow> downloadTask list \<Rightarrow> (string \<times> string) list" where
  "folded e b tasks =
     map (\<lambda>t. (filePath t, relPath (delivered e b t))) (takeWhile (succeeds e b) tasks)"

text \<open>The events a call has added to the world it started from.\<close>

definition new_events :: "world \<Rightarrow> world \<Rightarrow> event list" where
  "new_events w w' = drop (length (events w)) (events w')"

definition is_WriteFile :: "event \<Rightarrow> bool" where
  "is_WriteFile ev = (case ev of WriteFile p \<Rightarrow> True | _ \<Rightarrow> False)"

text \<open>
  The events of the part of a build that runs while the gate is held: no gate operation.
  The events of the scan and of the downloads: moreover, no writing of the manifest.
\<close>

definition body_event :: "event \<Rightarrow> bool" where
  "body_event ev = (ev \<noteq> Acquire \<and> ev \<noteq> Release)"

definition scan_event :: "event \<Rightarrow> bool" where
  "scan_event ev = (ev \<noteq> Acquire \<and> ev \<noteq> Release \<and> \<not> is_WriteFile ev)"

text \<open>
  The number of tasks a call has put on the queue of its worker pool: its \<open>Enqueue\<close> events.
\<close>

definition is_Enqueue :: "event \<Rightarrow> bool" where
  "is_Enqueue ev = (case ev of Enqueue p \<Rightarrow> True | _ \<Rightarrow> False)"

definition queued :: "world \<Rightarrow> world \<Rightarrow> nat" where
  "queued w w' = length (filter is_Enqueue (new_events w w'))"

text \<open>
  The disk during the downloads of a call that starts in the world \<open>w\<close>: the files as they
  are once the workers have gone through the first \<open>k\<close> tasks of the queue.
\<close>

definition disk_after :: "env \<Rightarrow> Live2dBuilder \<Rightarrow> world \<Rightarrow> nat \<Rightarrow> (string \<rightharpoonup> string)" where
  "disk_after e b w k =
     snd (snd (run_workers e (build_context b) b 0
                 (take k (fst (prepareDownloadTasks e b (files w))))
                 (new_pool (nat (MaxConcurrentDownloads e))) (files w)))"

text \<open>
  The \<open>k\<close>-th task of the queue is downloaded during the call when a worker is still
  running for it, that worker does not see the cancellation, and its \<open>DownloadBundleFile\<close>
  ends without error and has written the destination file (a tolerated 404 ends without
  error and writes nothing).
\<close>

definition downloaded :: "env \<Rightarrow> Live2dBuilder \<Rightarrow> world \<Rightarrow> nat \<Rightarrow> bool" where
  "downloaded e b w k =
     (let tasks = fst (prepareDownloadTasks e b (files w));
          ctx = build_context b;
          (dn, pl, fs) = run_workers e ctx b 0 (take k tasks)
                           (new_pool (nat (MaxConcurrentDownloads e))) (files w)
      in k < length tasks \<and> alive pl \<noteq> 0 \<and> \<not> observed e ctx (AtWorker k) \<and>
         (case DownloadBundleFile e (observed e ctx (AtFetch k)) (bundleFile (tasks ! k))
                 (filePath (tasks ! k)) (allowNotFound (tasks ! k)) fs of
            (None, fs1) \<Rightarrow> fs1 (filePath (tasks ! k)) \<noteq> None
          | (Some er, fs1) \<Rightarrow> False))"

text \<open>The two paths that \<open>prepareDownloadTasks\<close> and \<open>createModelData\<close> compute locally.\<close>

definition physicsFile :: "env \<Rightarrow> Live2dBuilder \<Rightarrow> string" where
  "physicsFile e b = filepath_Join e (dataPath b) ''physics.json''"

definition modelJSONPath :: "env \<Rightarrow> Live2dBuilder \<Rightarrow> string" where
  "modelJSONPath e b = filepath_Join e (path b) ''model.json''"

text \<open>
  Two accumulators have the same contents when their paths and lists agree and their motion
  maps hold the same entries, in whatever order the maps happen to enumerate them.
\<close>

definition same_contents :: "Live2dModel \<Rightarrow> Live2dModel \<Rightarrow> bool" where
  "same_contents a a' =
     (Live2dModel.Model a = Live2dModel.Model a' \<and>
      Live2dModel.Physics a = Live2dModel.Physics a' \<and>
      Live2dModel.Textures a = Live2dModel.Textures a' \<and>
      Live2dModel.Expressions a = Live2dModel.Expressions a' \<and>
      distinct (map fst (Live2dModel.Motions a)) \<and>
      distinct (map fst (Live2dModel.Motions a')) \<and>
      map_of (Live2dModel.Motions a) = map_of (Live2dModel.Motions a'))"

text \<open>
  The members of the manifest object that do not depend on the build (the version and the
  two auxiliary blocks, their keys in sorted order), and the members that are read from the
  accumulator.
\<close>

definition fixed_members :: "(string \<times> json) list" where
  "fixed_members =
     [(''version'', JString ''Sample 1.0.0''),
      (''layout'',
         JObject [(''center_x'', JNumber 0), (''center_y'', JNumber 0), (''width'', JNumber 2)]),
      (''hit_areas_custom'',
         JObject [(''body_x'', JArray [JNumber (- 0.3), JNumber 0.2]),
                  (''body_y'', JArray [JNumber 0.3, JNumber (- 1.9)]),
                  (''head_x'', JArray [JNumber (- 0.25), JNumber 1]),
                  (''head_y'', JArray [JNumber 0.25, JNumber 0.2])])]"

definition accumulated_members :: "Live2dModel \<Rightarrow> (string \<times> json) list" where
  "accumulated_members a =
     [(''model'', JString (Live2dModel.Model a)),
      (''physics'', JString (Live2dModel.Physics a)),
      (''textures'', json_slice (map JString (Live2dModel.Textures a))),
      (''motions'', json_map (\<lambda>fs. json_slice (map MotionFile_json fs)) (Live2dModel.Motions a)),
      (''expressions'', json_slice (map ExpressionFile_json (Live2dModel.Expressions a)))]"

section \<open>A small build, for concrete evaluation\<close>

text \<open>
  Path functions that agree with \<open>filepath.Join\<close>, \<open>Dir\<close> and \<open>Rel\<close> on the clean relative
  paths used below, a remote host that serves four files, a file system on which nothing
  fails, and leaf encoders that are right for the strings and numbers of this build.
\<close>

definition example_Join :: "string \<Rightarrow> string \<Rightarrow> string" where
  "example_Join a b = a @ ''/'' @ b"

definition example_Dir :: "string \<Rightarrow> string" where
  "example_Dir p = rev (tl (dropWhile (\<lambda>c. c \<noteq> CHR ''/'') (rev p)))"

definition example_Rel :: "string \<Rightarrow> string \<Rightarrow> string option" where
  "example_Rel base targ =
     (if HasPrefix targ (base @ ''/'') then Some (drop (length base + 1) targ) else None)"

definition example_host :: "string \<Rightarrow> Response option" where
  "example_host url =
     (if url = ''http://h/b_rip/model.moc'' then
        Some \<lparr>StatusCode = 200, ContentType = ''application/octet-stream'', Body = ''MOC''\<rparr>
      else if url = ''http://h/b_rip/physics.json'' then
        Some \<lparr>StatusCode = 200, ContentType = ''application/json'', Body = ''{}''\<rparr>
      else if url = ''http://h/b_rip/texture_00.png'' then
        Some \<lparr>StatusCode = 200, ContentType = ''image/png'', Body = ''PNG''\<rparr>
      else if url = ''http://h/b_rip/idle01.mtn'' then
        Some \<lparr>StatusCode = 200, ContentType = ''text/plain'', Body = ''MTN''\<rparr>
      else Some \<lparr>StatusCode = 404, ContentType = ''text/plain'', Body = []\<rparr>)"

definition example_json_float :: "real \<Rightarrow> string" where
  "example_json_float x =
     (if x = 0 then ''0'' else if x = 1 then ''1'' else if x = 2 then ''2''
      else if x = - 0.25 then ''-0.25'' else if x = 0.25 then ''0.25''
      else if x = 0.2 then ''0.2'' else if x = - 0.3 then ''-0.3''
      else if x = 0.3 then ''0.3'' else if x = - 1.9 then ''-1.9'' else ''?'')"

definition example_env :: env where
  "example_env =
     \<lparr>BaseAssetsURL = ''http://h'',
      MaxConcurrentDownloads = 20,
      filepath_Join = example_Join,
      filepath_Dir = example_Dir,
      filepath_Rel = example_Rel,
      filepath_ToSlash = (\<lambda>p. p),
      http_NewRequest_fails = (\<lambda>url. False),
      http_Do = example_host,
      os_Stat_other = (\<lambda>p. False),
      os_MkdirAll_fails = (\<lambda>p. False),
      os_Create_fails = (\<lambda>p. False),
      io_Copy = (\<lambda>p. CopyOK),
      os_WriteFile = (\<lambda>p. WriteOK),
      ctx_Done = (\<lambda>s. False),
      json_string = (\<lambda>s. [CHR 0x22] @ s @ [CHR 0x22]),
      json_float = example_json_float\<rparr>"

definition in_bundle :: "string \<Rightarrow> BundleFile" where
  "in_bundle name = \<lparr>BundleName = ''b'', FileName = name\<rparr>"

definition example_data :: BuildData where
  "example_data =
     \<lparr>BuildData.Model = in_bundle ''model.moc'',
      BuildData.Physics = in_bundle ''physics.json'',
      BuildData.Textures = [in_bundle ''texture_00.png''],
      Transition = in_bundle ''transition.asset'',
      BuildData.Motions = [in_bundle ''idle01.mtn''],
      BuildData.Expressions = []\<rparr>"

definition example_downloader :: Downloader where
  "example_downloader = \<lparr>savePath = ''out'', TuiModel = None, modelSem_cap = 3\<rparr>"

definition example_builder :: Live2dBuilder where
  "example_builder = NewLive2dBuilder example_env ''m'' example_data example_downloader ''m''"

definition empty_world :: world where
  "empty_world = \<lparr>files = Map.empty, modelSem = 0, events = []\<rparr>"

text \<open>The same host, except that it has no file at one URL (status 404).\<close>

definition without :: "string \<Rightarrow> env \<Rightarrow> env" where
  "without url e =
     e\<lparr>http_Do := (\<lambda>u. if u = url
                        then Some \<lparr>StatusCode = 404, ContentType = ''text/plain'', Body = []\<rparr>
                        else http_Do e u)\<rparr>"

text \<open>The same host, except that it answers one URL with an HTML page and status 200.\<close>

definition with_html_page :: "string \<Rightarrow> env \<Rightarrow> env" where
  "with_html_page url e =
     e\<lparr>http_Do := (\<lambda>u. if u = url
                        then Some \<lparr>StatusCode = 200, ContentType = ''text/html; charset=utf-8'',
                                   Body = ''<html>''\<rparr>
                        else http_Do e u)\<rparr>"

text \<open>A disk on which an earlier build has left the model file and the texture.\<close>

definition resumed_world :: world where
  "resumed_world =
     \<lparr>files = [''m/data/model.moc'' \<mapsto> ''MOC'', ''m/data/textures/texture_00.png'' \<mapsto> ''PNG''],
      modelSem = 0, events = []\<rparr>"

text \<open>
  A disk on which an earlier build has succeeded: every required file and a manifest.
\<close>

definition complete_world :: world where
  "complete_world =
     \<lparr>files = [''m/data/model.moc'' \<mapsto> ''MOC'', ''m/data/physics.json'' \<mapsto> ''{}'',
               ''m/data/textures/texture_00.png'' \<mapsto> ''PNG'',
               ''m/data/motions/idle01.mtn'' \<mapsto> ''MTN'', ''m/model.json'' \<mapsto> ''old manifest''],
      modelSem = 0, events = []\<rparr>"

text \<open>
  The same environment, except that writing a file fails after the file was opened and
  truncated, before any byte is written (a full disk).
\<close>

definition with_full_disk :: "env \<Rightarrow> env" where
  "with_full_disk e = e\<lparr>os_WriteFile := (\<lambda>p. WritePartial 0)\<rparr>"

section \<open>Properties of the accumulator\<close>

lemma Split_not_Nil: "Split s sep \<noteq> []"
  by (induction s) (auto split: list.splits)

lemma Split_first_takeWhile: "Split_first s sep = takeWhile (\<lambda>c. c \<noteq> sep) s"
  unfolding Split_first_def
  by (induction s) (auto split: list.splits simp: Split_not_Nil)

lemma list_all_update:
  "list_all P al \<Longrightarrow> P (k, v) \<Longrightarrow> list_all P (AList.update k v al)"
  by (induction al) auto

lemma one_file_per_motion_update:
  "one_file_per_motion acc \<Longrightarrow> one_file_per_motion (updateModelData acc fp rp)"
  by (simp add: one_file_per_motion_def updateModelData_def Let_def distinct_update
      list_all_update)

lemma one_file_per_motion_update_all:
  "one_file_per_motion acc \<Longrightarrow> one_file_per_motion (update_all acc ups)"
  by (induction acc ups rule: update_all.induct) (simp_all add: one_file_per_motion_update)

lemma one_file_per_motion_new: "one_file_per_motion new_model"
  by (simp add: one_file_per_motion_def new_model_def)

text \<open>
  C10. Texture and expression entries are appended unconditionally: folding the same
  texture-classified path into the accumulator twice leaves its relative path twice at the end
  of the textures list, and the same holds for an expression-classified path and the
  expressions list. Nothing is deduplicated for these two categories.
\<close>

theorem updateModelData_appends_twice:
  "(getFileType fp = ''texture'' \<longrightarrow>
      Live2dModel.Textures (updateModelData (updateModelData acc fp rp) fp rp)
        = Live2dModel.Textures acc @ [rp, rp]) \<and>
   (getFileType fp = ''expression'' \<longrightarrow>
      Live2dModel.Expressions (updateModelData (updateModelData acc fp rp) fp rp)
        = Live2dModel.Expressions acc @
          [\<lparr>ExpressionFile.Name = Split_first (Base fp) CHR ''.'', ExpressionFile.File = rp\<rparr>,
           \<lparr>ExpressionFile.Name = Split_first (Base fp) CHR ''.'', ExpressionFile.File = rp\<rparr>])"
  by (simp add: updateModelData_def Let_def)

theorem updateModelData_appends_twice_witness:
  "getFileType ''out/data/textures/texture_00.png'' = ''texture'' \<and>
   Live2dModel.Textures (updateModelData (updateModelData new_model
        ''out/data/textures/texture_00.png'' ''data/textures/texture_00.png'')
        ''out/data/textures/texture_00.png'' ''data/textures/texture_00.png'')
     = [''data/textures/texture_00.png'', ''data/textures/texture_00.png''] \<and>
   getFileType ''out/data/expressions/default.exp.json'' = ''expression'' \<and>
   Live2dModel.Expressions (updateModelData (updateModelData new_model
        ''out/data/expressions/default.exp.json'' ''data/expressions/default.exp.json'')
        ''out/data/expressions/default.exp.json'' ''data/expressions/default.exp.json'')
     = [\<lparr>ExpressionFile.Name = ''default'', ExpressionFile.File = ''data/expressions/default.exp.json''\<rparr>,
        \<lparr>ExpressionFile.Name = ''default'', ExpressionFile.File = ''data/expressions/default.exp.json''\<rparr>]"
proof -
  have t: "getFileType ''out/data/textures/texture_00.png'' = ''texture''"
    by (simp add: getFileType_def HasSuffix_def HasPrefix_def)
  have e: "getFileType ''out/data/expressions/default.exp.json'' = ''expression''"
    by (simp add: getFileType_def HasSuffix_def HasPrefix_def)
  have n: "Split_first (Base ''out/data/expressions/default.exp.json'') CHR ''.'' = ''default''"
    by (simp add: Split_first_takeWhile Base_def strip_trailing_slashes_def last_element_def)
  show ?thesis
    using t e n
      updateModelData_appends_twice [of "''out/data/textures/texture_00.png''" new_model
        "''data/textures/texture_00.png''"]
      updateModelData_appends_twice [of "''out/data/expressions/default.exp.json''" new_model
        "''data/expressions/default.exp.json''"]
    by (simp add: new_model_def)
qed

lemma takeWhile_name_without_extension:
  assumes "count_list b (CHR ''.'') \<le> 1"
  shows "takeWhile (\<lambda>c. c \<noteq> CHR ''.'') b = name_without_extension b"
proof (cases "CHR ''.'' \<in> set b")
  case False
  then show ?thesis by (auto simp add: name_without_extension_def takeWhile_eq_all_conv)
next
  case True
  then obtain xs ys where b: "b = xs @ CHR ''.'' # ys" and xs: "CHR ''.'' \<notin> set xs"
    by (meson split_list_first)
  from assms b have "count_list ys (CHR ''.'') = 0" by simp
  then have ys: "CHR ''.'' \<notin> set ys" by (simp add: count_list_0_iff)
  have 1: "takeWhile (\<lambda>c. c \<noteq> CHR ''.'') b = xs"
    unfolding b using xs by (subst takeWhile_append2) auto
  have 2: "dropWhile (\<lambda>c. c \<noteq> CHR ''.'') (rev b) = CHR ''.'' # rev xs"
    unfolding b rev_append rev.simps append_assoc using ys by (subst dropWhile_append2) auto
  show ?thesis using 1 2 True by (simp add: name_without_extension_def)
qed

text \<open>
  C9, as the code has it. For a path classified as a motion file, the accumulator stores the
  relative path as the single file of the motion whose name is the part of the file's base
  name before its FIRST dot; an entry already stored under that name is replaced, not
  extended. That name is the base name without its extension whenever the base name has at
  most one dot. After any sequence of updates of a fresh accumulator every motion name is
  stored once and maps to exactly one file.
\<close>

theorem motion_stored_under_name_before_first_dot:
  assumes "getFileType fp = ''motion''"
  shows "Live2dModel.Motions (updateModelData acc fp rp)
           = AList.update (takeWhile (\<lambda>c. c \<noteq> CHR ''.'') (Base fp))
               [\<lparr>MotionFile.File = rp\<rparr>] (Live2dModel.Motions acc)
         \<and> map_of (Live2dModel.Motions (updateModelData acc fp rp))
               (takeWhile (\<lambda>c. c \<noteq> CHR ''.'') (Base fp))
             = Some [\<lparr>MotionFile.File = rp\<rparr>]
         \<and> (count_list (Base fp) (CHR ''.'') \<le> 1 \<longrightarrow>
              takeWhile (\<lambda>c. c \<noteq> CHR ''.'') (Base fp) = name_without_extension (Base fp))
         \<and> one_file_per_motion (update_all new_model ups)"
  using assms
  by (simp add: updateModelData_def Let_def Split_first_takeWhile update_conv'
      takeWhile_name_without_extension one_file_per_motion_update_all one_file_per_motion_new)

theorem motion_stored_under_name_before_first_dot_witness:
  "getFileType ''out/data/motions/idle01.mtn'' = ''motion'' \<and>
   Live2dModel.Motions (updateModelData
       (updateModelData new_model ''out/data/motions/idle01.mtn'' ''old/idle01.mtn'')
       ''out/data/motions/idle01.mtn'' ''data/motions/idle01.mtn'')
     = [(''idle01'', [\<lparr>MotionFile.File = ''data/motions/idle01.mtn''\<rparr>])] \<and>
   name_without_extension (Base ''out/data/motions/idle01.mtn'') = ''idle01''"
proof -
  have m: "getFileType ''out/data/motions/idle01.mtn'' = ''motion''"
    by (simp add: getFileType_def HasSuffix_def HasPrefix_def)
  have b: "Base ''out/data/motions/idle01.mtn'' = ''idle01.mtn''"
    by (simp add: Base_def strip_trailing_slashes_def last_element_def)
  show ?thesis
    using m
      motion_stored_under_name_before_first_dot [OF m,
        of "updateModelData new_model ''out/data/motions/idle01.mtn'' ''old/idle01.mtn''"
           "''data/motions/idle01.mtn''" "[]"]
      motion_stored_under_name_before_first_dot [OF m, of new_model "''old/idle01.mtn''" "[]"]
    by (simp add: b new_model_def)
qed

text \<open>
  C9, as worded, fails for a base name with two dots: the motion of
  \<open>idle.01.mtn\<close> is stored under \<open>idle\<close>, while the base name without its extension is
  \<open>idle.01\<close>.
\<close>

theorem motion_name_counterexample:
  "getFileType ''out/data/motions/idle.01.mtn'' = ''motion'' \<and>
   map fst (Live2dModel.Motions (updateModelData new_model
      ''out/data/motions/idle.01.mtn'' ''data/motions/idle.01.mtn'')) = [''idle''] \<and>
   name_without_extension (Base ''out/data/motions/idle.01.mtn'') = ''idle.01''"
  by (simp add: getFileType_def HasSuffix_def HasPrefix_def updateModelData_def Let_def
      new_model_def Split_first_takeWhile Base_def strip_trailing_slashes_def last_element_def
      name_without_extension_def)

section \<open>Properties of the asset fetcher\<close>

text \<open>
  C3. Whenever \<open>DownloadBundleFile\<close> gets a response whose status is not OK, it returns an
  HTTP status error carrying that status and leaves the disk as it was, except when
  \<open>allowNotFound\<close> is set and the status is 404: then it returns no error, and again writes
  nothing. The tolerated 404 is the only status other than OK without an error.
\<close>

theorem DownloadBundleFile_status_not_OK:
  assumes "\<not> cancelled"
    and "createDownloadRequest e bf = Inr url"
    and "http_Do e url = Some resp"
    and "StatusCode resp \<noteq> 200"
  shows "DownloadBundleFile e cancelled bf fp allowNF fs =
           (if allowNF \<and> StatusCode resp = 404 then (None, fs)
            else (Some (HTTPStatusError (StatusCode resp)), fs))"
  using assms by (simp add: DownloadBundleFile_def validateResponse_def)

theorem DownloadBundleFile_status_not_OK_witness:
  "DownloadBundleFile (without ''http://h/b_rip/physics.json'' example_env) False
       (in_bundle ''physics.json'') ''m/data/physics.json'' True Map.empty = (None, Map.empty) \<and>
   DownloadBundleFile example_env False (in_bundle ''texture_01.png'') ''m/data/textures/texture_01.png''
       False Map.empty = (Some (HTTPStatusError 404), Map.empty)"
  using DownloadBundleFile_status_not_OK [of False "without ''http://h/b_rip/physics.json'' example_env"
      "in_bundle ''physics.json''" "''http://h/b_rip/physics.json''"
      "\<lparr>StatusCode = 404, ContentType = ''text/plain'', Body = []\<rparr>" "''m/data/physics.json''" True Map.empty]
    DownloadBundleFile_status_not_OK [of False example_env
      "in_bundle ''texture_01.png''" "''http://h/b_rip/texture_01.png''"
      "\<lparr>StatusCode = 404, ContentType = ''text/plain'', Body = []\<rparr>" "''m/data/textures/texture_01.png''" False Map.empty]
  by (simp add: createDownloadRequest_def example_env_def without_def in_bundle_def example_host_def)

text \<open>
  C7. Whenever \<open>DownloadBundleFile\<close> gets a response with status 200 whose content type
  begins with \<open>text/html\<close>, it returns the content mismatch error and leaves the disk as it
  was: no file is created at the destination. This holds for a mandatory file
  (\<open>allowNotFound\<close> false) and for an optional one alike.
\<close>

theorem DownloadBundleFile_html_page:
  assumes "\<not> cancelled"
    and "createDownloadRequest e bf = Inr url"
    and "http_Do e url = Some resp"
    and "StatusCode resp = 200"
    and "HasPrefix (ContentType resp) ''text/html''"
  shows "DownloadBundleFile e cancelled bf fp allowNF fs = (Some ContentMismatchError, fs)"
  using assms by (simp add: DownloadBundleFile_def validateResponse_def)

theorem DownloadBundleFile_html_page_witness:
  "DownloadBundleFile (with_html_page ''http://h/b_rip/model.moc'' example_env) False
       (in_bundle ''model.moc'') ''m/data/model.moc'' False Map.empty
     = (Some ContentMismatchError, Map.empty)"
  using DownloadBundleFile_html_page [of False "with_html_page ''http://h/b_rip/model.moc'' example_env"
      "in_bundle ''model.moc''" "''http://h/b_rip/model.moc''"
      "\<lparr>StatusCode = 200, ContentType = ''text/html; charset=utf-8'', Body = ''<html>''\<rparr>"
      "''m/data/model.moc''" False Map.empty]
  by (simp add: createDownloadRequest_def example_env_def with_html_page_def in_bundle_def
      HasPrefix_def)

section \<open>Properties of the scan\<close>

lemma check_files_fst:
  "map filePath (fst (check_files e fs dir bfs acc)) =
     map filePath (fst acc) @
     filter (stat_not_exist e fs) (map (\<lambda>bf. filepath_Join e dir (FileName bf)) bfs)"
  by (induction bfs arbitrary: acc) (simp_all add: check_file_def)

lemma check_files_snd:
  "snd (check_files e fs dir bfs acc) =
     snd acc @
     filter (\<lambda>p. \<not> stat_not_exist e fs p) (map (\<lambda>bf. filepath_Join e dir (FileName bf)) bfs)"
  by (induction bfs arbitrary: acc) (simp_all add: check_file_def)

lemma prepare_fst:
  "map filePath (fst (prepareDownloadTasks e b fs)) = filter (stat_not_exist e fs) (required_files e b)"
  by (simp add: prepareDownloadTasks_def Let_def check_files_fst check_file_def required_files_def)

lemma prepare_snd:
  "snd (prepareDownloadTasks e b fs) = filter (\<lambda>p. \<not> stat_not_exist e fs p) (required_files e b)"
  by (simp add: prepareDownloadTasks_def Let_def check_files_snd check_file_def required_files_def)

text \<open>
  C1. \<open>prepareDownloadTasks\<close> splits the required files (the model file, the physics file,
  and the destination of every texture, motion and expression) in two: the tasks are, in
  order, the required files that the existence check reports missing, and the existing files
  are, in order, all the others. So every required file is in exactly one of the two lists,
  a task exists for it exactly when it is reported missing, and when no required file is
  reported missing there is no task at all.
\<close>

theorem prepareDownloadTasks_partitions:
  assumes "prepareDownloadTasks e b fs = (tasks, existingFiles)"
  shows "map filePath tasks = filter (stat_not_exist e fs) (required_files e b)
       \<and> existingFiles = filter (\<lambda>p. \<not> stat_not_exist e fs p) (required_files e b)
       \<and> length tasks + length existingFiles = length (required_files e b)
       \<and> (\<forall>p \<in> set (required_files e b).
             (p \<in> filePath ` set tasks \<longleftrightarrow> stat_not_exist e fs p) \<and>
             (p \<in> set existingFiles \<longleftrightarrow> \<not> stat_not_exist e fs p))
       \<and> ((\<forall>p \<in> set (required_files e b). \<not> stat_not_exist e fs p) \<longrightarrow> tasks = [])"
proof -
  have t: "map filePath tasks = filter (stat_not_exist e fs) (required_files e b)"
    using prepare_fst [of e b fs] assms by simp
  have x: "existingFiles = filter (\<lambda>p. \<not> stat_not_exist e fs p) (required_files e b)"
    using prepare_snd [of e b fs] assms by simp
  have l: "length tasks + length existingFiles = length (required_files e b)"
    using arg_cong [OF t, of length] x
      sum_length_filter_compl [of "stat_not_exist e fs" "required_files e b"]
    by simp
  have m: "filePath ` set tasks = set (filter (stat_not_exist e fs) (required_files e b))"
    using arg_cong [OF t, of set] by simp
  have z: "(\<forall>p \<in> set (required_files e b). \<not> stat_not_exist e fs p) \<longrightarrow> tasks = []"
    using arg_cong [OF t, of length] by (auto simp: filter_empty_conv)
  show ?thesis using t x l m z by auto
qed

theorem prepareDownloadTasks_partitions_witness:
  "map filePath (fst (prepareDownloadTasks example_env example_builder (files resumed_world)))
     = [''m/data/physics.json'', ''m/data/motions/idle01.mtn''] \<and>
   snd (prepareDownloadTasks example_env example_builder (files resumed_world))
     = [''m/data/model.moc'', ''m/data/textures/texture_00.png'']"
  using prepareDownloadTasks_partitions [OF prod.collapse [symmetric],
      of example_env example_builder "files resumed_world"]
  by (simp add: required_files_def stat_not_exist_def example_builder_def NewLive2dBuilder_def
      example_env_def example_Join_def example_data_def in_bundle_def resumed_world_def)

section \<open>Properties of the worker pool and of the outcome loop\<close>

lemma DownloadBundleFile_error_any_disk:
  "fst (DownloadBundleFile e c bf fp a fs) = fst (DownloadBundleFile e c bf fp a fs')"
  by (auto simp add: DownloadBundleFile_def createFileAndDirectory_def writeFileContent_def
      split: sum.splits option.splits copy_outcome.splits)

lemma send_tasks_uncancelled:
  "\<forall>s. \<not> observed e ctx s \<Longrightarrow> send_tasks e ctx i tasks = (tasks, False)"
  by (induction tasks arbitrary: i) simp_all

lemma chan_send_empty: "chan_send (Suc 0) [] v = Some [v]"
  by (simp add: chan_send_def)

lemma run_workers_uncancelled:
  assumes "\<forall>s. \<not> observed e ctx s" and "0 < alive pl" and "list_all (\<lambda>t. result t = []) tasks"
  shows "\<exists>fs'. run_workers e ctx b i tasks pl fs =
           (map (\<lambda>t. t\<lparr>result := [delivered e b t]\<rparr>) tasks, pl, fs')"
  using assms
proof (induction tasks arbitrary: i fs)
  case Nil
  then show ?case by simp
next
  case (Cons t ts)
  obtain er fs1 where d:
    "DownloadBundleFile e False (bundleFile t) (filePath t) (allowNotFound t) fs = (er, fs1)"
    by (cases "DownloadBundleFile e False (bundleFile t) (filePath t) (allowNotFound t) fs")
  have er: "er = fst (DownloadBundleFile e False (bundleFile t) (filePath t) (allowNotFound t) Map.empty)"
    using d DownloadBundleFile_error_any_disk [of e False "bundleFile t" "filePath t" "allowNotFound t" fs Map.empty]
    by simp
  from Cons.prems have ts: "list_all (\<lambda>t. result t = []) ts" and t: "result t = []" by simp_all
  from Cons.IH [OF Cons.prems(1) Cons.prems(2) ts, of "i + 1" fs1]
  obtain fs' where r: "run_workers e ctx b (i + 1) ts pl fs1 =
      (map (\<lambda>t. t\<lparr>result := [delivered e b t]\<rparr>) ts, pl, fs')" by blast
  show ?case
    using Cons.prems(1) Cons.prems(2) d er t r
    by (simp add: chan_send_empty delivered_def)
qed

lemma run_workers_blocked_on_result:
  "run_workers e ctx b i tasks pl fs = (ts', pl', fs') \<Longrightarrow>
   list_all (\<lambda>t. result t = []) tasks \<Longrightarrow>
   blocked_on_result pl' = blocked_on_result pl"
proof (induction tasks arbitrary: i pl fs ts' pl' fs')
  case Nil
  then show ?case by simp
next
  case (Cons t ts)
  from Cons.prems(2) have t: "result t = []" and ts: "list_all (\<lambda>t. result t = []) ts"
    by simp_all
  show ?case
  proof (cases "alive pl = 0")
    case True
    with Cons.prems(1) show ?thesis by simp
  next
    case False
    show ?thesis
    proof (cases "observed e ctx (AtWorker i)")
      case True
      with False Cons.prems(1) Cons.IH [OF _ ts] show ?thesis
        by (auto simp: chan_send_def Let_def split: prod.splits if_splits)
    next
      case obs: False
      with False Cons.prems(1) t Cons.IH [OF _ ts] show ?thesis
        by (auto simp: chan_send_empty Let_def split: prod.splits)
    qed
  qed
qed

lemma processDownloadResults_uncancelled:
  assumes "\<forall>s. \<not> observed e ctx s"
  shows "\<exists>w' ts'. processDownloadResults e ctx b i
             (map (\<lambda>t. t\<lparr>result := [delivered e b0 t]\<rparr>) tasks) c w
           = Some (first_error e b0 tasks,
                   b\<lparr>model := update_all (model b) (folded e b0 tasks)\<rparr>, w', ts')
         \<and> map result ts' = channels_left e b0 tasks"
proof (induction tasks arbitrary: b i c w)
  case Nil
  then show ?case by (simp add: first_error_def folded_def channels_left_def)
next
  case (Cons t ts)
  show ?case
  proof (cases "succeeds e b0 t")
    case True
    from Cons.IH [of "b\<lparr>model := updateModelData (model b) (filePath t) (relPath (delivered e b0 t))\<rparr>"
        "i + 1" "c + 1" "tui_event b (UpdateProgress (ModelName b) (c + 1)) w"]
    obtain w' ts' where
      "processDownloadResults e ctx
         (b\<lparr>model := updateModelData (model b) (filePath t) (relPath (delivered e b0 t))\<rparr>)
         (i + 1) (map (\<lambda>t. t\<lparr>result := [delivered e b0 t]\<rparr>) ts) (c + 1)
         (tui_event b (UpdateProgress (ModelName b) (c + 1)) w)
       = Some (first_error e b0 ts,
               b\<lparr>model := update_all (updateModelData (model b) (filePath t) (relPath (delivered e b0 t)))
                              (folded e b0 ts)\<rparr>, w', ts')"
      and "map result ts' = channels_left e b0 ts"
      by auto
    with True assms show ?thesis
      by (simp add: first_error_def folded_def channels_left_def succeeds_def)
  next
    case False
    then obtain er where "err (delivered e b0 t) = Some er"
      by (auto simp: succeeds_def)
    with False assms show ?thesis
      by (simp add: first_error_def folded_def channels_left_def comp_def)
  qed
qed

lemmas example_defs =
  example_env_def example_builder_def NewLive2dBuilder_def example_data_def in_bundle_def
  example_downloader_def example_Join_def example_Rel_def example_Dir_def example_host_def
  without_def empty_world_def new_model_def

lemma example_tasks_any:
  "fst (prepareDownloadTasks (without u example_env) example_builder Map.empty)
   = [\<lparr>bundleFile = in_bundle ''model.moc'', filePath = ''m/data/model.moc'', allowNotFound = False, result = []\<rparr>,
      \<lparr>bundleFile = in_bundle ''physics.json'', filePath = ''m/data/physics.json'', allowNotFound = True, result = []\<rparr>,
      \<lparr>bundleFile = in_bundle ''texture_00.png'', filePath = ''m/data/textures/texture_00.png'', allowNotFound = False, result = []\<rparr>,
      \<lparr>bundleFile = in_bundle ''idle01.mtn'', filePath = ''m/data/motions/idle01.mtn'', allowNotFound = False, result = []\<rparr>]"
  by (simp add: prepareDownloadTasks_def check_file_def stat_not_exist_def Let_def example_defs)

text \<open>
  C2, as the code has it. Take tasks with empty result channels, at least one worker, and a
  run in which no cancellation is observed. Then \<open>handleDownloadTasks\<close> returns the error of
  the first task, in task order, whose outcome carries one (nil if there is none); the
  accumulator has folded in exactly the outcomes before it; and the builder has returned at
  once: the outcome of every later task is still in that task's result channel, not
  received. Workers are nevertheless never blocked on delivering an outcome, with or without
  cancellation, since every result channel has room for the one outcome it gets.
\<close>

theorem first_error_returned_rest_left_in_channels:
  assumes "\<forall>s. \<not> observed e ctx s"
    and "0 < MaxConcurrentDownloads e"
    and "list_all (\<lambda>t. result t = []) tasks"
  shows "(\<exists>b' w' ts' pl.
            handleDownloadTasks e ctx b tasks c w = Some (first_error e b tasks, b', w', ts', pl)
            \<and> model b' = update_all (model b) (folded e b tasks)
            \<and> map result ts' = channels_left e b tasks
            \<and> blocked_on_result pl = 0)
       \<and> blocked_on_result (fst (snd (run_workers e ctx' b i tasks pl0 fs))) = blocked_on_result pl0"
proof -
  have second: "blocked_on_result (fst (snd (run_workers e ctx' b i tasks pl0 fs))) = blocked_on_result pl0"
    using run_workers_blocked_on_result [OF _ assms(3), of e ctx' b i pl0 fs]
    by (cases "run_workers e ctx' b i tasks pl0 fs") auto
  have first: "\<exists>b' w' ts' pl.
            handleDownloadTasks e ctx b tasks c w = Some (first_error e b tasks, b', w', ts', pl)
            \<and> model b' = update_all (model b) (folded e b tasks)
            \<and> map result ts' = channels_left e b tasks
            \<and> blocked_on_result pl = 0"
  proof (cases "tasks = []")
    case True
    then show ?thesis
      by (simp add: handleDownloadTasks_def first_error_def folded_def channels_left_def new_pool_def)
  next
    case False
    let ?n = "nat (MaxConcurrentDownloads e)"
    have n: "0 < alive (new_pool ?n)" using assms(2) by (simp add: new_pool_def)
    from run_workers_uncancelled [OF assms(1) n assms(3), of b 0 "files w"]
    obtain fs' where rw: "run_workers e ctx b 0 tasks (new_pool ?n) (files w) =
        (map (\<lambda>t. t\<lparr>result := [delivered e b t]\<rparr>) tasks, new_pool ?n, fs')" by blast
    let ?w1 = "w\<lparr>files := fs',
        events := events w @ [StartWorkerPool ?n] @ map (\<lambda>t. Enqueue (filePath t)) tasks\<rparr>"
    from processDownloadResults_uncancelled [OF assms(1), of b 0 b tasks c
        "?w1\<lparr>events := events ?w1 @ [CloseQueue]\<rparr>"]
    obtain w' ts' where pr: "processDownloadResults e ctx b 0
             (map (\<lambda>t. t\<lparr>result := [delivered e b t]\<rparr>) tasks) c (?w1\<lparr>events := events ?w1 @ [CloseQueue]\<rparr>)
           = Some (first_error e b tasks,
                   b\<lparr>model := update_all (model b) (folded e b tasks)\<rparr>, w', ts')"
      and ch: "map result ts' = channels_left e b tasks" by blast
    show ?thesis
      using False rw pr ch send_tasks_uncancelled [OF assms(1), of 0 tasks]
      by (cases "first_error e b tasks")
         (simp_all add: handleDownloadTasks_def Let_def new_pool_def)
  qed
  from first second show ?thesis by blast
qed

theorem first_error_returned_rest_left_in_channels_witness:
  "map_option fst
     (handleDownloadTasks (without ''http://h/b_rip/texture_00.png'' example_env) Background
        example_builder
        (fst (prepareDownloadTasks (without ''http://h/b_rip/texture_00.png'' example_env) example_builder Map.empty))
        0 empty_world)
     = Some (Some (DownloadFailed (HTTPStatusError 404))) \<and>
   channels_left (without ''http://h/b_rip/texture_00.png'' example_env) example_builder
       (fst (prepareDownloadTasks (without ''http://h/b_rip/texture_00.png'' example_env) example_builder Map.empty))
     = [[], [], [], [\<lparr>relPath = ''data/motions/idle01.mtn'', err = None\<rparr>]]"
proof -
  let ?E = "without ''http://h/b_rip/texture_00.png'' example_env"
  let ?T = "fst (prepareDownloadTasks ?E example_builder Map.empty)"
  have h1: "\<forall>s. \<not> observed ?E Background s" by (simp add: observed_def)
  have h2: "0 < MaxConcurrentDownloads ?E" by (simp add: example_defs)
  have h3: "list_all (\<lambda>t. result t = []) ?T" by (simp add: example_tasks_any)
  have s: "map (succeeds ?E example_builder) ?T = [True, True, False, True]"
    unfolding example_tasks_any
    by (simp add: succeeds_def delivered_def DownloadBundleFile_def createDownloadRequest_def
        validateResponse_def createFileAndDirectory_def writeFileContent_def worker_result_def
        HasPrefix_def example_defs)
  have d: "delivered ?E example_builder
             \<lparr>bundleFile = in_bundle ''texture_00.png'', filePath = ''m/data/textures/texture_00.png'',
              allowNotFound = False, result = []\<rparr>
           = \<lparr>relPath = [], err = Some (DownloadFailed (HTTPStatusError 404))\<rparr>"
    by (simp add: delivered_def DownloadBundleFile_def createDownloadRequest_def
        validateResponse_def worker_result_def example_defs)
  have m: "delivered ?E example_builder
             \<lparr>bundleFile = in_bundle ''idle01.mtn'', filePath = ''m/data/motions/idle01.mtn'',
              allowNotFound = False, result = []\<rparr>
           = \<lparr>relPath = ''data/motions/idle01.mtn'', err = None\<rparr>"
    by (simp add: delivered_def DownloadBundleFile_def createDownloadRequest_def
        validateResponse_def createFileAndDirectory_def writeFileContent_def worker_result_def
        HasPrefix_def example_defs)
  have f: "first_error ?E example_builder ?T = Some (DownloadFailed (HTTPStatusError 404))"
    using s d unfolding example_tasks_any by (simp add: first_error_def)
  have c: "channels_left ?E example_builder ?T
             = [[], [], [], [\<lparr>relPath = ''data/motions/idle01.mtn'', err = None\<rparr>]]"
    using s d m unfolding example_tasks_any by (simp add: channels_left_def)
  from first_error_returned_rest_left_in_channels [OF h1 h2 h3,
      of example_builder 0 empty_world Background 0 "new_pool 1" Map.empty]
  show ?thesis using f c by auto
qed

text \<open>
  C2, as worded, fails when the model file, the first of four tasks, is answered with
  404: the builder returns that error, and the outcomes of the three other tasks are still
  in their channels: it has not received them.
\<close>

theorem remaining_outcomes_not_received:
  "map_option fst
     (handleDownloadTasks (without ''http://h/b_rip/model.moc'' example_env) Background example_builder
        (fst (prepareDownloadTasks (without ''http://h/b_rip/model.moc'' example_env) example_builder Map.empty))
        0 empty_world)
     = Some (Some (DownloadFailed (HTTPStatusError 404))) \<and>
   map_option (map result \<circ> fst \<circ> snd \<circ> snd \<circ> snd)
     (handleDownloadTasks (without ''http://h/b_rip/model.moc'' example_env) Background example_builder
        (fst (prepareDownloadTasks (without ''http://h/b_rip/model.moc'' example_env) example_builder Map.empty))
        0 empty_world)
     = Some [[],
             [\<lparr>relPath = ''data/physics.json'', err = None\<rparr>],
             [\<lparr>relPath = ''data/textures/texture_00.png'', err = None\<rparr>],
             [\<lparr>relPath = ''data/motions/idle01.mtn'', err = None\<rparr>]]"
  unfolding example_tasks_any
  by (simp add: handleDownloadTasks_def observed_def new_pool_def DownloadBundleFile_def
      createDownloadRequest_def validateResponse_def createFileAndDirectory_def
      writeFileContent_def worker_result_def chan_send_def HasPrefix_def tui_event_def has_tui_def
      Let_def example_defs)

section \<open>What the parts of a build do to the world\<close>

lemma tui_event_effect:
  "files (tui_event b ev w) = files w"
  "modelSem (tui_event b ev w) = modelSem w"
  "events (tui_event b ev w) = events w @ (if has_tui b then [ev] else [])"
  by (simp_all add: tui_event_def)

lemma processExistingFiles_effect:
  "processExistingFiles e b xs c w = (c', er, b', w') \<Longrightarrow>
     files w' = files w \<and> modelSem w' = modelSem w \<and>
     (\<exists>new. events w' = events w @ new \<and> list_all scan_event new) \<and>
     (\<exists>m. b' = b\<lparr>model := m\<rparr>)"
proof (induction xs arbitrary: b c w)
  case Nil
  then show ?case by (auto intro: exI [of _ "model b"])
next
  case (Cons x xs)
  show ?case
  proof (cases "filepath_Rel e (path b) x")
    case None
    with Cons.prems show ?thesis by (auto intro: exI [of _ "model b"])
  next
    case (Some rel)
    with Cons.prems Cons.IH [of "b\<lparr>model := updateModelData (model b) x (filepath_ToSlash e rel)\<rparr>"
        "c + 1" "tui_event b (UpdateProgress (ModelName b) (c + 1)) w"]
    show ?thesis
      by (auto simp: tui_event_effect scan_event_def is_WriteFile_def)
  qed
qed

lemma processDownloadResults_effect:
  "processDownloadResults e ctx b i ts c w = Some (r, b', w', ts') \<Longrightarrow>
     files w' = files w \<and> modelSem w' = modelSem w \<and>
     (\<exists>new. events w' = events w @ new \<and> list_all scan_event new) \<and>
     (\<exists>m. b' = b\<lparr>model := m\<rparr>)"
proof (induction ts arbitrary: b i c w ts')
  case Nil
  then show ?case by (auto intro: exI [of _ "model b"])
next
  case (Cons t ts)
  show ?case
  proof (cases "observed e ctx (AtReceive i)")
    case True
    with Cons.prems show ?thesis by (auto intro: exI [of _ "model b"])
  next
    case False
    note nobs = this
    show ?thesis
    proof (cases "result t")
      case Nil
      with nobs Cons.prems show ?thesis by simp
    next
      case (Cons x buf)
      note res = this
      show ?thesis
      proof (cases "err x")
        case (Some er)
        with nobs res Cons.prems show ?thesis by (auto intro: exI [of _ "model b"])
      next
        case None
        with nobs res Cons.prems
        obtain ts'' where rec: "processDownloadResults e ctx
            (b\<lparr>model := updateModelData (model b) (filePath t) (relPath x)\<rparr>) (i + 1) ts (c + 1)
            (tui_event b (UpdateProgress (ModelName b) (c + 1)) w) = Some (r, b', w', ts'')"
          by (auto split: option.splits)
        from Cons.IH [OF rec] show ?thesis
          by (auto simp: tui_event_effect scan_event_def is_WriteFile_def)
      qed
    qed
  qed
qed

lemma DownloadBundleFile_dom:
  "dom fs \<subseteq> dom (snd (DownloadBundleFile e c bf fp a fs))"
  by (auto simp add: DownloadBundleFile_def createFileAndDirectory_def writeFileContent_def
      split: sum.splits option.splits copy_outcome.splits if_splits)

lemma DownloadBundleFile_elsewhere:
  "p \<noteq> fp \<Longrightarrow> snd (DownloadBundleFile e c bf fp a fs) p = fs p"
  by (auto simp add: DownloadBundleFile_def createFileAndDirectory_def writeFileContent_def
      split: sum.splits option.splits copy_outcome.splits if_splits)

lemma run_workers_files:
  "run_workers e ctx b i tasks pl fs = (ts', pl', fs') \<Longrightarrow>
     dom fs \<subseteq> dom fs' \<and> (\<forall>p. p \<notin> filePath ` set tasks \<longrightarrow> fs' p = fs p)"
proof (induction tasks arbitrary: i pl fs ts' pl' fs')
  case Nil
  then show ?case by simp
next
  case (Cons t ts)
  show ?case
  proof (cases "alive pl = 0")
    case True
    with Cons.prems show ?thesis by simp
  next
    case False
    show ?thesis
    proof (cases "observed e ctx (AtWorker i)")
      case True
      with False Cons.prems Cons.IH show ?thesis
        by (auto simp: Let_def split: prod.splits option.splits)
    next
      case obs: False
      obtain er fs1 where d: "DownloadBundleFile e (observed e ctx (AtFetch i)) (bundleFile t)
          (filePath t) (allowNotFound t) fs = (er, fs1)"
        by (cases "DownloadBundleFile e (observed e ctx (AtFetch i)) (bundleFile t)
          (filePath t) (allowNotFound t) fs")
      have d1: "dom fs \<subseteq> dom fs1"
        using DownloadBundleFile_dom [of fs e "observed e ctx (AtFetch i)" "bundleFile t"
            "filePath t" "allowNotFound t"] d by simp
      have d2: "\<forall>p. p \<noteq> filePath t \<longrightarrow> fs1 p = fs p"
        using DownloadBundleFile_elsewhere [of _ "filePath t" e "observed e ctx (AtFetch i)"
            "bundleFile t" "allowNotFound t" fs] d by simp
      from False obs d Cons.prems
      obtain ts'' pl0 where rec: "run_workers e ctx b (i + 1) ts pl0 fs1 = (ts'', pl', fs')"
        by (auto simp: Let_def split: prod.splits option.splits)
      from Cons.IH [OF rec] have i1: "dom fs1 \<subseteq> dom fs'"
        and i2: "\<forall>p. p \<notin> filePath ` set ts \<longrightarrow> fs' p = fs1 p" by simp_all
      have "dom fs \<subseteq> dom fs'" using d1 i1 by (rule order_trans)
      moreover have "\<forall>p. p \<notin> filePath ` set (t # ts) \<longrightarrow> fs' p = fs p"
        using d2 i2 by simp
      ultimately show ?thesis by simp
    qed
  qed
qed

lemma send_tasks_subset:
  "send_tasks e ctx i tasks = (sent, cancelled) \<Longrightarrow> set sent \<subseteq> set tasks"
proof (induction tasks arbitrary: i sent cancelled)
  case Nil
  then show ?case by simp
next
  case (Cons t ts)
  show ?case
  proof (cases "observed e ctx (AtSend i)")
    case True
    with Cons.prems show ?thesis by simp
  next
    case False
    obtain s1 c1 where r: "send_tasks e ctx (i + 1) ts = (s1, c1)"
      by (cases "send_tasks e ctx (i + 1) ts")
    from Cons.IH [OF r] have "set s1 \<subseteq> set ts" .
    with False r Cons.prems show ?thesis by auto
  qed
qed

lemma handleDownloadTasks_effect:
  assumes "handleDownloadTasks e ctx b tasks c w = Some (r, b', w', ts', pl)"
  shows "dom (files w) \<subseteq> dom (files w') \<and>
         (\<forall>p. p \<notin> filePath ` set tasks \<longrightarrow> files w' p = files w p) \<and>
         modelSem w' = modelSem w \<and>
         (\<exists>new. events w' = events w @ new \<and> list_all scan_event new) \<and>
         (\<exists>m. b' = b\<lparr>model := m\<rparr>)"
proof (cases "tasks = []")
  case True
  with assms show ?thesis by (auto simp: handleDownloadTasks_def intro: exI [of _ "model b"])
next
  case False
  let ?n = "nat (MaxConcurrentDownloads e)"
  obtain sent cancelled where st: "send_tasks e ctx 0 tasks = (sent, cancelled)"
    by (cases "send_tasks e ctx 0 tasks")
  obtain dn pl1 fs where rw: "run_workers e ctx b 0 sent (new_pool ?n) (files w) = (dn, pl1, fs)"
    by (cases "run_workers e ctx b 0 sent (new_pool ?n) (files w)")
  let ?w1 = "w\<lparr>files := fs,
      events := events w @ [StartWorkerPool ?n] @ map (\<lambda>t. Enqueue (filePath t)) sent\<rparr>"
  have f1: "dom (files w) \<subseteq> dom fs" and f2: "\<forall>p. p \<notin> filePath ` set tasks \<longrightarrow> fs p = files w p"
    using run_workers_files [OF rw] image_mono [OF send_tasks_subset [OF st], of filePath]
    by (simp, blast)
  have ev: "list_all scan_event ([StartWorkerPool ?n] @ map (\<lambda>t. Enqueue (filePath t)) sent)"
    by (simp add: scan_event_def is_WriteFile_def list_all_iff)
  show ?thesis
  proof (cases cancelled)
    case True
    with False assms st rw have "w' = ?w1" and "b' = b"
      by (simp_all add: handleDownloadTasks_def Let_def)
    with f1 f2 ev show ?thesis by (auto intro: exI [of _ "model b"])
  next
    case nc: False
    let ?w2 = "?w1\<lparr>events := events ?w1 @ [CloseQueue]\<rparr>"
    from False nc assms st rw obtain r0 w0 where
      pr: "processDownloadResults e ctx b 0 dn c ?w2 = Some (r0, b', w0, ts')"
      by (cases "processDownloadResults e ctx b 0 dn c ?w2")
         (auto simp add: handleDownloadTasks_def Let_def split: option.splits)
    have w': "w' = w0 \<or> (\<exists>er. w' = tui_event b (SendError (ModelName b) er) w0)"
      using False nc assms st rw pr
      by (cases r0) (auto simp add: handleDownloadTasks_def Let_def)
    from processDownloadResults_effect [OF pr]
    obtain new m where a: "files w0 = fs" "modelSem w0 = modelSem w"
      "events w0 = events w @ ([StartWorkerPool ?n] @ map (\<lambda>t. Enqueue (filePath t)) sent) @ [CloseQueue] @ new"
      "list_all scan_event new" "b' = b\<lparr>model := m\<rparr>"
      by auto
    have ev0: "list_all scan_event (([StartWorkerPool ?n] @ map (\<lambda>t. Enqueue (filePath t)) sent) @ [CloseQueue] @ new)"
      using ev a(4) by (simp add: scan_event_def is_WriteFile_def)
    from w' show ?thesis
    proof
      assume "w' = w0"
      with a ev0 f1 f2 show ?thesis by blast
    next
      assume "\<exists>er. w' = tui_event b (SendError (ModelName b) er) w0"
      then obtain er where w'': "w' = tui_event b (SendError (ModelName b) er) w0" by blast
      have "events w' = events w @ ((([StartWorkerPool ?n] @ map (\<lambda>t. Enqueue (filePath t)) sent) @ [CloseQueue] @ new)
               @ (if has_tui b then [SendError (ModelName b) er] else []))"
        using w'' a(3) by (simp add: tui_event_effect)
      moreover have "list_all scan_event ((([StartWorkerPool ?n] @ map (\<lambda>t. Enqueue (filePath t)) sent) @ [CloseQueue] @ new)
               @ (if has_tui b then [SendError (ModelName b) er] else []))"
        using ev0 by (simp add: scan_event_def is_WriteFile_def)
      ultimately have "\<exists>new. events w' = events w @ new \<and> list_all scan_event new" by blast
      with w'' a f1 f2 show ?thesis by (auto simp: tui_event_effect)
    qed
  qed
qed

lemma scan_events_are_body_events: "list_all scan_event new \<Longrightarrow> list_all body_event new"
  by (simp add: list_all_iff scan_event_def body_event_def)

lemma createModelData_effect:
  assumes "createModelData e b w = (r, w')"
  shows "dom (files w) \<subseteq> dom (files w') \<and>
         (\<forall>p. p \<noteq> modelJSONPath e b \<longrightarrow> files w' p = files w p) \<and>
         modelSem w' = modelSem w \<and>
         (\<exists>new. events w' = events w @ new \<and> list_all body_event new) \<and>
         (r = None \<or> r = Some WriteManifestError)"
  using assms
  by (cases "os_WriteFile e (filepath_Join e (path b) ''model.json'')")
     (auto simp add: createModelData_def MarshalIndent_def modelJSONPath_def Let_def body_event_def)

lemma prepare_paths:
  "filePath ` set (fst (prepareDownloadTasks e b fs)) \<subseteq> set (required_files e b)"
proof -
  have "filePath ` set (fst (prepareDownloadTasks e b fs))
          = set (filter (stat_not_exist e fs) (required_files e b))"
    using arg_cong [OF prepare_fst [of e b fs], of set] by simp
  then show ?thesis by auto
qed

lemma Construct_body_effect:
  assumes "Construct_body e ctx b w = Some (r, b', w')"
  shows "dom (files w) \<subseteq> dom (files w') \<and> modelSem w' = modelSem w \<and>
         (\<exists>new. events w' = events w @ new \<and> list_all body_event new \<and>
                (r \<noteq> None \<and> r \<noteq> Some WriteManifestError \<longrightarrow> list_all scan_event new)) \<and>
         (r \<noteq> None \<and> r \<noteq> Some WriteManifestError \<longrightarrow>
            modelJSONPath e b \<notin> set (required_files e b) \<longrightarrow>
            files w' (modelJSONPath e b) = files w (modelJSONPath e b)) \<and>
         (\<exists>m. b' = b\<lparr>model := m\<rparr>)"
proof -
  let ?w1 = "initializeDownloadProgress b w"
  have w1: "files ?w1 = files w" "modelSem ?w1 = modelSem w"
    "\<exists>n1. events ?w1 = events w @ n1 \<and> list_all scan_event n1"
    by (simp_all add: initializeDownloadProgress_def Let_def tui_event_effect scan_event_def
        is_WriteFile_def)
  obtain tasks existingFiles where pt: "prepareDownloadTasks e b (files ?w1) = (tasks, existingFiles)"
    by (cases "prepareDownloadTasks e b (files ?w1)")
  obtain c er b1 w2 where pe: "processExistingFiles e b existingFiles 0 ?w1 = (c, er, b1, w2)"
    by (cases "processExistingFiles e b existingFiles 0 ?w1") auto
  from processExistingFiles_effect [OF pe] w1
  obtain n2 m1 where w2: "files w2 = files w" "modelSem w2 = modelSem w"
    "events w2 = events w @ n2" "list_all scan_event n2" and b1: "b1 = b\<lparr>model := m1\<rparr>"
    by auto
  have tp: "filePath ` set tasks \<subseteq> set (required_files e b)"
    using prepare_paths [of e b "files ?w1"] pt by simp
  show ?thesis
  proof (cases er)
    case (Some x)
    with assms pt pe have r: "r = Some x" "b' = b1"
      "w' = tui_event b (SendError (ModelName b) x) w2"
      by (simp_all add: Construct_body_def Let_def)
    have "events w' = events w @ (n2 @ (if has_tui b then [SendError (ModelName b) x] else []))"
      using r w2 by (simp add: tui_event_effect)
    moreover have "list_all scan_event (n2 @ (if has_tui b then [SendError (ModelName b) x] else []))"
      using w2 by (simp add: scan_event_def is_WriteFile_def)
    ultimately have "\<exists>new. events w' = events w @ new \<and> list_all scan_event new" by blast
    with r w2 b1 show ?thesis
      by (auto simp: tui_event_effect dest: scan_events_are_body_events)
  next
    case None
    note er_none = this
    show ?thesis
    proof (cases "handleDownloadTasks e ctx b1 tasks c w2")
      case None
      with er_none assms pt pe show ?thesis by (simp add: Construct_body_def Let_def)
    next
      case (Some h)
      then obtain r3 b2 w3 ts pl where h: "handleDownloadTasks e ctx b1 tasks c w2 = Some (r3, b2, w3, ts, pl)"
        by (cases h) auto
      from handleDownloadTasks_effect [OF h] w2 b1
      obtain n3 m2 where w3: "dom (files w) \<subseteq> dom (files w3)"
        "\<forall>p. p \<notin> filePath ` set tasks \<longrightarrow> files w3 p = files w p"
        "modelSem w3 = modelSem w" "events w3 = events w @ n2 @ n3" "list_all scan_event n3"
        and b2: "b2 = b\<lparr>model := m2\<rparr>"
        by auto
      have n23: "list_all scan_event (n2 @ n3)" using w2(4) w3(5) by simp
      show ?thesis
      proof (cases r3)
        case (Some x)
        with er_none assms pt pe h have r: "r = Some x" "b' = b2" "w' = w3"
          by (simp_all add: Construct_body_def Let_def)
        have "files w' (modelJSONPath e b) = files w (modelJSONPath e b)"
          if "modelJSONPath e b \<notin> set (required_files e b)"
        proof -
          from that tp have "modelJSONPath e b \<notin> filePath ` set tasks" by blast
          with w3(2) r show ?thesis by simp
        qed
        with r w3 b2 n23 show ?thesis
          by (auto dest: scan_events_are_body_events)
      next
        case None
        obtain r4 w4 where cm: "createModelData e b2 w3 = (r4, w4)"
          by (cases "createModelData e b2 w3")
        with None er_none assms pt pe h have r: "r = r4" "b' = b2" "w' = w4"
          by (simp_all add: Construct_body_def Let_def)
        from createModelData_effect [OF cm]
        obtain n4 where w4: "dom (files w3) \<subseteq> dom (files w4)" "modelSem w4 = modelSem w3"
          "events w4 = events w3 @ n4" "list_all body_event n4"
          "r4 = None \<or> r4 = Some WriteManifestError"
          by auto
        have "events w' = events w @ ((n2 @ n3) @ n4)" using r w4 w3 by simp
        moreover have "list_all body_event ((n2 @ n3) @ n4)"
          using scan_events_are_body_events [OF n23] w4(4) by simp
        ultimately have "\<exists>new. events w' = events w @ new \<and> list_all body_event new \<and>
            (r \<noteq> None \<and> r \<noteq> Some WriteManifestError \<longrightarrow> list_all scan_event new)"
          using w4(5) r by blast
        moreover have "dom (files w) \<subseteq> dom (files w')"
          using w3(1) w4(1) r by (auto intro: order_trans)
        ultimately show ?thesis using r w4 w3 b2 by auto
      qed
    qed
  qed
qed

section \<open>The gate\<close>



lemmas run_defs =
  Construct_def setupDownloadEnvironment_def build_context_def observed_def release_def
  Construct_body_def initializeDownloadProgress_def prepareDownloadTasks_def check_file_def
  stat_not_exist_def handleDownloadTasks_def new_pool_def DownloadBundleFile_def
  createDownloadRequest_def validateResponse_def createFileAndDirectory_def
  writeFileContent_def worker_result_def chan_send_def HasPrefix_def tui_event_def has_tui_def
  createModelData_def MarshalIndent_def Let_def















section \<open>A build in an environment without failures of its own\<close>

lemma update_all_append:
  "update_all acc (xs @ ys) = update_all (update_all acc xs) ys"
  by (induction acc xs rule: update_all.induct) simp_all

lemma processExistingFiles_ok:
  assumes "\<forall>p\<in>set xs. filepath_Rel e (path b) p \<noteq> None"
  shows "\<exists>w'. processExistingFiles e b xs c w =
           (c + length xs, None,
            b\<lparr>model := update_all (model b)
                 (map (\<lambda>p. (p, filepath_ToSlash e (the (filepath_Rel e (path b) p)))) xs)\<rparr>, w')"
  using assms
proof (induction xs arbitrary: b c w)
  case Nil
  then show ?case by simp
next
  case (Cons x xs)
  from Cons.prems obtain rel where rel: "filepath_Rel e (path b) x = Some rel" by auto
  let ?b = "b\<lparr>model := updateModelData (model b) x (filepath_ToSlash e rel)\<rparr>"
  have "\<forall>p\<in>set xs. filepath_Rel e (path ?b) p \<noteq> None" using Cons.prems by simp
  from Cons.IH [OF this, of "c + 1" "tui_event b (UpdateProgress (ModelName b) (c + 1)) w"]
  obtain w' where "processExistingFiles e ?b xs (c + 1)
      (tui_event b (UpdateProgress (ModelName b) (c + 1)) w) =
        (c + 1 + length xs, None,
         ?b\<lparr>model := update_all (model ?b)
              (map (\<lambda>p. (p, filepath_ToSlash e (the (filepath_Rel e (path ?b) p)))) xs)\<rparr>, w')"
    by blast
  with rel show ?case by simp
qed

lemma delivered_path:
  "path b' = path b \<Longrightarrow> delivered e b' t = delivered e b t"
  by (simp add: delivered_def worker_result_def split: option.splits)

lemma succeeds_path:
  "path b' = path b \<Longrightarrow> succeeds e b' = succeeds e b"
  using delivered_path [of b' b e] by (simp add: succeeds_def fun_eq_iff)

lemma first_error_path: "path b' = path b \<Longrightarrow> first_error e b' ts = first_error e b ts"
proof -
  assume p: "path b' = path b"
  have d: "\<And>t. delivered e b' t = delivered e b t" using delivered_path [OF p] .
  have s: "succeeds e b' = succeeds e b" using succeeds_path [OF p] .
  show ?thesis
    unfolding first_error_def s d by (rule refl)
qed

lemma folded_path: "path b' = path b \<Longrightarrow> folded e b' ts = folded e b ts"
  using delivered_path [of b' b e] succeeds_path [of b' b e]
  by (simp add: folded_def)

lemma Construct_unfold:
  assumes nobs: "\<not> observed e (build_context b) AtGate"
    and room: "modelSem w < modelSem_cap (downloader b)"
    and mk: "\<not> os_MkdirAll_fails e (dataPath b)"
    and pt: "prepareDownloadTasks e b (files w) = (tasks, existingFiles)"
    and rel: "\<forall>p\<in>set existingFiles. filepath_Rel e (path b) p \<noteq> None"
  shows "\<exists>w2. files w2 = files w \<and> modelSem w2 = modelSem w + 1 \<and>
     Construct e b w =
       (case handleDownloadTasks e (build_context b)
               (b\<lparr>model := update_all (model b)
                    (map (\<lambda>p. (p, filepath_ToSlash e (the (filepath_Rel e (path b) p))))
                       existingFiles)\<rparr>)
               tasks (length existingFiles) w2 of
          None \<Rightarrow> None
        | Some (r3, b2, w3, ts, pl) \<Rightarrow>
            (case r3 of
               Some x \<Rightarrow> Some (Some x, b2, w3\<lparr>modelSem := modelSem w3 - 1, events := events w3 @ [Release]\<rparr>)
             | None \<Rightarrow>
                 Some (fst (createModelData e b2 w3), b2,
                       (snd (createModelData e b2 w3))
                         \<lparr>modelSem := modelSem (snd (createModelData e b2 w3)) - 1,
                          events := events (snd (createModelData e b2 w3)) @ [Release]\<rparr>)))"
proof -
  let ?w1 = "w\<lparr>modelSem := modelSem w + 1, events := events w @ [Acquire, MkdirAll (dataPath b)]\<rparr>"
  let ?wi = "initializeDownloadProgress b ?w1"
  let ?b1 = "b\<lparr>model := update_all (model b)
                    (map (\<lambda>p. (p, filepath_ToSlash e (the (filepath_Rel e (path b) p)))) existingFiles)\<rparr>"
  have su: "setupDownloadEnvironment e b w = Some (Inr (build_context b), ?w1)"
    using nobs room mk by (simp add: setupDownloadEnvironment_def Let_def)
  have fi: "files ?wi = files w" "modelSem ?wi = modelSem w + 1"
    by (simp_all add: initializeDownloadProgress_def tui_event_effect)
  from processExistingFiles_ok [OF rel, of 0 ?wi]
  obtain w2 where pe: "processExistingFiles e b existingFiles 0 ?wi = (length existingFiles, None, ?b1, w2)"
    by auto
  from processExistingFiles_effect [OF pe] fi
  have w2: "files w2 = files w" "modelSem w2 = modelSem w + 1" by simp_all
  have pt': "prepareDownloadTasks e b (files ?wi) = (tasks, existingFiles)" using fi pt by simp
  let ?h = "handleDownloadTasks e (build_context b) ?b1 tasks (length existingFiles) w2"
  have cb: "Construct_body e (build_context b) b ?w1 =
      (case ?h of
         None \<Rightarrow> None
       | Some (r3, b2, w3, ts, pl) \<Rightarrow>
           (case r3 of Some x \<Rightarrow> Some (Some x, b2, w3)
            | None \<Rightarrow> Some (fst (createModelData e b2 w3), b2, snd (createModelData e b2 w3))))"
    unfolding Construct_body_def Let_def pt' prod.case pe option.case
    by (simp split: option.splits prod.splits)
  have main: "Construct e b w =
       (case ?h of
          None \<Rightarrow> None
        | Some (r3, b2, w3, ts, pl) \<Rightarrow>
            (case r3 of
               Some x \<Rightarrow> Some (Some x, b2, w3\<lparr>modelSem := modelSem w3 - 1, events := events w3 @ [Release]\<rparr>)
             | None \<Rightarrow>
                 Some (fst (createModelData e b2 w3), b2,
                       (snd (createModelData e b2 w3))
                         \<lparr>modelSem := modelSem (snd (createModelData e b2 w3)) - 1,
                          events := events (snd (createModelData e b2 w3)) @ [Release]\<rparr>)))"
  proof (cases ?h)
    case None
    with su cb show ?thesis by (simp add: Construct_def)
  next
    case (Some h)
    then obtain r3 b2 w3 ts pl where h: "?h = Some (r3, b2, w3, ts, pl)" by (cases h) auto
    from handleDownloadTasks_effect [OF h] w2 have m3: "modelSem w3 = modelSem w + 1" by simp
    show ?thesis
    proof (cases r3)
      case (Some x)
      with su cb h m3 show ?thesis by (simp add: Construct_def release_def)
    next
      case None
      obtain r4 w4 where cm: "createModelData e b2 w3 = (r4, w4)"
        by (cases "createModelData e b2 w3")
      from createModelData_effect [OF cm] m3 have "modelSem w4 = modelSem w + 1" by simp
      with None su cb h cm show ?thesis by (simp add: Construct_def release_def)
    qed
  qed
  show ?thesis
    by (intro exI [of _ w2] conjI) (fact w2(1), fact w2(2), fact main)
qed

lemma Construct_effect:
  assumes "Construct e b w = Some (r, b', w')"
  shows "dom (files w) \<subseteq> dom (files w') \<and>
         (\<exists>new. events w' = events w @ new \<and>
                (r \<noteq> None \<and> r \<noteq> Some WriteManifestError \<longrightarrow>
                   list_all (\<lambda>ev. \<not> is_WriteFile ev) new)) \<and>
         (r \<noteq> None \<and> r \<noteq> Some WriteManifestError \<longrightarrow>
            modelJSONPath e b \<notin> set (required_files e b) \<longrightarrow>
            files w' (modelJSONPath e b) = files w (modelJSONPath e b))"
proof (cases "observed e (build_context b) AtGate")
  case True
  with assms have "w' = w" by (simp add: Construct_def setupDownloadEnvironment_def)
  then show ?thesis by simp
next
  case False
  note nobs = this
  show ?thesis
  proof (cases "modelSem w < modelSem_cap (downloader b)")
    case False
    with nobs assms show ?thesis by (simp add: Construct_def setupDownloadEnvironment_def)
  next
    case True
    note room = this
    let ?w1 = "w\<lparr>modelSem := modelSem w + 1, events := events w @ [Acquire, MkdirAll (dataPath b)]\<rparr>"
    show ?thesis
    proof (cases "os_MkdirAll_fails e (dataPath b)")
      case True
      with nobs room assms have
        "w' = (tui_event b (SetError (ModelName b)) ?w1)
               \<lparr>modelSem := modelSem w, events := events (tui_event b (SetError (ModelName b)) ?w1) @ [Release]\<rparr>"
        by (auto simp add: Construct_def setupDownloadEnvironment_def Let_def release_def
            tui_event_effect split: if_splits)
      then have "files w' = files w"
        and "events w' = events w @
              ([Acquire, MkdirAll (dataPath b)] @ (if has_tui b then [SetError (ModelName b)] else []) @ [Release])"
        by (simp_all add: tui_event_effect)
      moreover have "list_all (\<lambda>ev. \<not> is_WriteFile ev)
          ([Acquire, MkdirAll (dataPath b)] @ (if has_tui b then [SetError (ModelName b)] else []) @ [Release])"
        by (simp add: is_WriteFile_def)
      ultimately show ?thesis by auto
    next
      case False
      with nobs room have su: "setupDownloadEnvironment e b w = Some (Inr (build_context b), ?w1)"
        by (simp add: setupDownloadEnvironment_def Let_def)
      show ?thesis
      proof (cases "Construct_body e (build_context b) b ?w1")
        case None
        with su assms show ?thesis by (simp add: Construct_def)
      next
        case (Some x)
        then obtain r2 b2 w2 where cb: "Construct_body e (build_context b) b ?w1 = Some (r2, b2, w2)"
          by (cases x) auto
        from Construct_body_effect [OF cb]
        obtain new where w2: "dom (files w) \<subseteq> dom (files w2)" "modelSem w2 = modelSem w + 1"
          "events w2 = events w @ [Acquire, MkdirAll (dataPath b)] @ new"
          "r2 \<noteq> None \<and> r2 \<noteq> Some WriteManifestError \<longrightarrow> list_all scan_event new"
          "r2 \<noteq> None \<and> r2 \<noteq> Some WriteManifestError \<longrightarrow>
             modelJSONPath e b \<notin> set (required_files e b) \<longrightarrow>
             files w2 (modelJSONPath e b) = files w (modelJSONPath e b)"
          by auto
        from su cb assms w2(2) have r: "r = r2"
          "w' = w2\<lparr>modelSem := modelSem w2 - 1, events := events w2 @ [Release]\<rparr>"
          by (simp_all add: Construct_def release_def)
        have ev: "events w' = events w @ ([Acquire, MkdirAll (dataPath b)] @ new @ [Release])"
          using r w2 by simp
        have "r \<noteq> None \<and> r \<noteq> Some WriteManifestError \<longrightarrow>
            list_all (\<lambda>ev. \<not> is_WriteFile ev) ([Acquire, MkdirAll (dataPath b)] @ new @ [Release])"
          using w2(4) r by (auto simp: is_WriteFile_def scan_event_def list_all_iff)
        with ev have "\<exists>new. events w' = events w @ new \<and>
                (r \<noteq> None \<and> r \<noteq> Some WriteManifestError \<longrightarrow>
                   list_all (\<lambda>ev. \<not> is_WriteFile ev) new)" by blast
        moreover have "dom (files w) \<subseteq> dom (files w')" using w2(1) r by simp
        moreover have "r \<noteq> None \<and> r \<noteq> Some WriteManifestError \<longrightarrow>
            modelJSONPath e b \<notin> set (required_files e b) \<longrightarrow>
            files w' (modelJSONPath e b) = files w (modelJSONPath e b)"
          using w2(5) r by simp
        ultimately show ?thesis by blast
      qed
    qed
  qed
qed

lemma check_files_channels:
  "list_all (\<lambda>t. result t = []) (fst acc) \<Longrightarrow>
   list_all (\<lambda>t. result t = []) (fst (check_files e fs dir bfs acc))"
  by (induction bfs arbitrary: acc) (simp_all add: check_file_def)

lemma prepare_channels:
  "list_all (\<lambda>t. result t = []) (fst (prepareDownloadTasks e b fs))"
  by (simp add: prepareDownloadTasks_def Let_def check_files_channels check_file_def)

lemma new_events_append: "events w' = events w @ new \<Longrightarrow> new_events w w' = new"
  by (simp add: new_events_def)

lemma run_workers_dead:
  "alive pl = 0 \<Longrightarrow> run_workers e ctx b i ts pl fs = (ts, pl, fs)"
  by (cases ts) simp_all

lemma run_workers_append:
  "run_workers e ctx b i (xs @ ys) pl fs =
     (case run_workers e ctx b i xs pl fs of
        (xs', pl', fs') \<Rightarrow>
          (case run_workers e ctx b (i + length xs) ys pl' fs' of
             (ys', pl'', fs'') \<Rightarrow> (xs' @ ys', pl'', fs'')))"
proof (induction xs arbitrary: i pl fs)
  case Nil
  then show ?case by (simp split: prod.splits)
next
  case (Cons t ts)
  show ?case
  proof (cases "alive pl = 0")
    case True
    then show ?thesis by (simp add: run_workers_dead)
  next
    case False
    then show ?thesis
      by (simp add: Cons.IH Let_def split: prod.splits option.splits)
  qed
qed

lemma run_workers_prefix_dom:
  "dom (snd (snd (run_workers e ctx b i (take k xs) pl fs)))
     \<subseteq> dom (snd (snd (run_workers e ctx b i xs pl fs)))"
proof -
  obtain xs' pl' fs' where a: "run_workers e ctx b i (take k xs) pl fs = (xs', pl', fs')"
    by (cases "run_workers e ctx b i (take k xs) pl fs")
  obtain ys' pl'' fs'' where
    b: "run_workers e ctx b (i + length (take k xs)) (drop k xs) pl' fs' = (ys', pl'', fs'')"
    by (cases "run_workers e ctx b (i + length (take k xs)) (drop k xs) pl' fs'")
  have "run_workers e ctx b i xs pl fs = (xs' @ ys', pl'', fs'')"
    using run_workers_append [of e ctx b i "take k xs" "drop k xs" pl fs] a b by simp
  with a run_workers_files [OF b] show ?thesis by simp
qed

lemma worker_result_model:
  "worker_result e (b\<lparr>model := m\<rparr>) t d = worker_result e b t d"
  by (simp add: worker_result_def split: option.splits)

lemma run_workers_model:
  "run_workers e ctx (b\<lparr>model := m\<rparr>) i ts pl fs = run_workers e ctx b i ts pl fs"
proof (induction ts arbitrary: i pl fs)
  case Nil
  then show ?case by simp
next
  case (Cons t ts)
  then show ?case by (simp add: worker_result_model Let_def split: prod.splits option.splits)
qed

lemma send_tasks_prefix:
  "send_tasks e ctx i tasks = (sent, cancelled) \<Longrightarrow> sent = take (length sent) tasks"
proof (induction tasks arbitrary: i sent cancelled)
  case Nil
  then show ?case by simp
next
  case (Cons t ts)
  show ?case
  proof (cases "observed e ctx (AtSend i)")
    case True
    with Cons.prems show ?thesis by simp
  next
    case False
    obtain s1 c1 where r: "send_tasks e ctx (i + 1) ts = (s1, c1)"
      by (cases "send_tasks e ctx (i + 1) ts")
    from Cons.IH [OF r] have "s1 = take (length s1) ts" .
    with False r Cons.prems show ?thesis by auto
  qed
qed

lemma tui_event_no_enqueue:
  "\<not> is_Enqueue ev \<Longrightarrow>
   \<exists>new. events (tui_event b ev w) = events w @ new \<and> filter is_Enqueue new = []"
  by (simp add: tui_event_def)

lemma processExistingFiles_no_enqueue:
  "processExistingFiles e b xs c w = (c', er, b', w') \<Longrightarrow>
     \<exists>new. events w' = events w @ new \<and> filter is_Enqueue new = []"
proof (induction xs arbitrary: b c w)
  case Nil
  then show ?case by simp
next
  case (Cons x xs)
  show ?case
  proof (cases "filepath_Rel e (path b) x")
    case None
    with Cons.prems show ?thesis by simp
  next
    case (Some rel)
    with Cons.prems have rec: "processExistingFiles e
        (b\<lparr>model := updateModelData (model b) x (filepath_ToSlash e rel)\<rparr>) xs (c + 1)
        (tui_event b (UpdateProgress (ModelName b) (c + 1)) w) = (c', er, b', w')" by simp
    from Cons.IH [OF rec] obtain new where
      n: "events w' = events (tui_event b (UpdateProgress (ModelName b) (c + 1)) w) @ new"
         "filter is_Enqueue new = []" by blast
    have "events w' = events w @ ((if has_tui b then [UpdateProgress (ModelName b) (c + 1)] else []) @ new)"
      using n(1) by (simp add: tui_event_effect)
    moreover have "filter is_Enqueue
        ((if has_tui b then [UpdateProgress (ModelName b) (c + 1)] else []) @ new) = []"
      using n(2) by (simp add: is_Enqueue_def)
    ultimately show ?thesis by blast
  qed
qed

lemma processDownloadResults_no_enqueue:
  "processDownloadResults e ctx b i ts c w = Some (r, b', w', ts') \<Longrightarrow>
     \<exists>new. events w' = events w @ new \<and> filter is_Enqueue new = []"
proof (induction ts arbitrary: b i c w ts')
  case Nil
  then show ?case by simp
next
  case (Cons t ts)
  show ?case
  proof (cases "observed e ctx (AtReceive i)")
    case True
    with Cons.prems show ?thesis by simp
  next
    case False
    note nobs = this
    show ?thesis
    proof (cases "result t")
      case Nil
      with nobs Cons.prems show ?thesis by simp
    next
      case (Cons x buf)
      note res = this
      show ?thesis
      proof (cases "err x")
        case (Some er)
        with nobs res Cons.prems show ?thesis by auto
      next
        case None
        with nobs res Cons.prems
        obtain ts'' where rec: "processDownloadResults e ctx
            (b\<lparr>model := updateModelData (model b) (filePath t) (relPath x)\<rparr>) (i + 1) ts (c + 1)
            (tui_event b (UpdateProgress (ModelName b) (c + 1)) w) = Some (r, b', w', ts'')"
          by (auto split: option.splits)
        from Cons.IH [OF rec] obtain new where
          n: "events w' = events (tui_event b (UpdateProgress (ModelName b) (c + 1)) w) @ new"
             "filter is_Enqueue new = []" by blast
        have "events w' = events w @ ((if has_tui b then [UpdateProgress (ModelName b) (c + 1)] else []) @ new)"
          using n(1) by (simp add: tui_event_effect)
        moreover have "filter is_Enqueue
            ((if has_tui b then [UpdateProgress (ModelName b) (c + 1)] else []) @ new) = []"
          using n(2) by (simp add: is_Enqueue_def)
        ultimately show ?thesis by blast
      qed
    qed
  qed
qed

lemma handleDownloadTasks_queue:
  assumes "handleDownloadTasks e ctx b tasks c w = Some (r, b', w', ts', pl)"
  shows "\<exists>sent new. events w' = events w @ new \<and> length (filter is_Enqueue new) = length sent \<and>
           sent = take (length sent) tasks \<and>
           files w' = snd (snd (run_workers e ctx b 0 sent
                                  (new_pool (nat (MaxConcurrentDownloads e))) (files w)))"
proof (cases "tasks = []")
  case True
  with assms have "w' = w" by (simp add: handleDownloadTasks_def)
  then show ?thesis by (intro exI [of _ "[]"]) simp
next
  case False
  let ?n = "nat (MaxConcurrentDownloads e)"
  obtain sent cancelled where st: "send_tasks e ctx 0 tasks = (sent, cancelled)"
    by (cases "send_tasks e ctx 0 tasks")
  obtain dn pl1 fs where rw: "run_workers e ctx b 0 sent (new_pool ?n) (files w) = (dn, pl1, fs)"
    by (cases "run_workers e ctx b 0 sent (new_pool ?n) (files w)")
  let ?q = "[StartWorkerPool ?n] @ map (\<lambda>t. Enqueue (filePath t)) sent"
  let ?w1 = "w\<lparr>files := fs, events := events w @ ?q\<rparr>"
  have q: "length (filter is_Enqueue ?q) = length sent"
    by (simp add: is_Enqueue_def filter_map comp_def)
  have pre: "sent = take (length sent) tasks" using send_tasks_prefix [OF st] .
  show ?thesis
  proof (cases cancelled)
    case True
    with False assms st rw have "w' = ?w1"
      by (simp add: handleDownloadTasks_def Let_def)
    then have "events w' = events w @ ?q" and "files w' = fs" by simp_all
    with q pre rw show ?thesis by (intro exI [of _ sent] exI [of _ ?q]) simp
  next
    case nc: False
    let ?w2 = "?w1\<lparr>events := events ?w1 @ [CloseQueue]\<rparr>"
    from False nc assms st rw obtain r0 w0 where
      pr: "processDownloadResults e ctx b 0 dn c ?w2 = Some (r0, b', w0, ts')"
      by (cases "processDownloadResults e ctx b 0 dn c ?w2")
         (auto simp add: handleDownloadTasks_def Let_def split: option.splits)
    have w': "w' = w0 \<or> (\<exists>er. w' = tui_event b (SendError (ModelName b) er) w0)"
      using False nc assms st rw pr
      by (cases r0) (auto simp add: handleDownloadTasks_def Let_def)
    from processDownloadResults_no_enqueue [OF pr] obtain new where
      n: "events w0 = events w @ ?q @ [CloseQueue] @ new" "filter is_Enqueue new = []" by auto
    from processDownloadResults_effect [OF pr] have f0: "files w0 = fs" by simp
    from w' obtain tl where t: "events w' = events w0 @ tl" "filter is_Enqueue tl = []"
      and f: "files w' = files w0"
    proof
      assume "w' = w0"
      then have "events w' = events w0 @ []" "filter is_Enqueue [] = []" "files w' = files w0"
        by simp_all
      then show ?thesis using that by blast
    next
      assume "\<exists>er. w' = tui_event b (SendError (ModelName b) er) w0"
      then obtain er where "w' = tui_event b (SendError (ModelName b) er) w0" by blast
      then have "events w' = events w0 @ (if has_tui b then [SendError (ModelName b) er] else [])"
        "filter is_Enqueue (if has_tui b then [SendError (ModelName b) er] else []) = []"
        "files w' = files w0"
        by (simp_all add: tui_event_effect is_Enqueue_def)
      then show ?thesis using that by blast
    qed
    have "events w' = events w @ (?q @ [CloseQueue] @ new @ tl)" using n(1) t(1) by simp
    moreover have "length (filter is_Enqueue (?q @ [CloseQueue] @ new @ tl)) = length sent"
      using q n(2) t(2) by (simp add: is_Enqueue_def)
    ultimately show ?thesis using pre f f0 rw
      by (intro exI [of _ sent] exI [of _ "?q @ [CloseQueue] @ new @ tl"]) simp
  qed
qed

lemma createModelData_no_enqueue:
  assumes "createModelData e b w = (r, w')"
  shows "\<exists>new. events w' = events w @ new \<and> filter is_Enqueue new = []"
  using assms
  by (cases "os_WriteFile e (filepath_Join e (path b) ''model.json'')")
     (auto simp add: createModelData_def MarshalIndent_def Let_def is_Enqueue_def)

lemma Construct_body_queue:
  assumes "Construct_body e ctx b w = Some (r, b', w')"
  shows "\<exists>new. events w' = events w @ new \<and>
           (\<forall>k\<le>length (filter is_Enqueue new).
              dom (snd (snd (run_workers e ctx b 0
                               (take k (fst (prepareDownloadTasks e b (files w))))
                               (new_pool (nat (MaxConcurrentDownloads e))) (files w))))
                \<subseteq> dom (files w'))"
proof -
  let ?n = "nat (MaxConcurrentDownloads e)"
  let ?w1 = "initializeDownloadProgress b w"
  obtain n1 where w1: "files ?w1 = files w" "events ?w1 = events w @ n1" "filter is_Enqueue n1 = []"
    using tui_event_no_enqueue [of "AddDownloadItem (ModelName b)
        (1 + 1 + length (BuildData.Textures (data b)) + length (BuildData.Motions (data b))
           + length (BuildData.Expressions (data b)))" b w]
    by (auto simp add: initializeDownloadProgress_def Let_def tui_event_effect is_Enqueue_def)
  obtain tasks existingFiles where pt: "prepareDownloadTasks e b (files w) = (tasks, existingFiles)"
    by (cases "prepareDownloadTasks e b (files w)")
  then have pt': "prepareDownloadTasks e b (files ?w1) = (tasks, existingFiles)" using w1(1) by simp
  obtain c er b1 w2 where pe: "processExistingFiles e b existingFiles 0 ?w1 = (c, er, b1, w2)"
    by (cases "processExistingFiles e b existingFiles 0 ?w1") auto
  from processExistingFiles_effect [OF pe] w1 obtain m1 where
    w2: "files w2 = files w" and b1: "b1 = b\<lparr>model := m1\<rparr>" by auto
  from processExistingFiles_no_enqueue [OF pe] w1 obtain n2 where
    e2: "events w2 = events w @ n1 @ n2" "filter is_Enqueue n2 = []" by auto
  have none: "\<exists>new. events w' = events w @ new \<and>
           (\<forall>k\<le>length (filter is_Enqueue new).
              dom (snd (snd (run_workers e ctx b 0 (take k tasks) (new_pool ?n) (files w))))
                \<subseteq> dom (files w'))"
    if ev: "events w' = events w @ new" and q: "filter is_Enqueue new = []"
      and f: "dom (files w) \<subseteq> dom (files w')" for new
    using ev q f by (intro exI [of _ new]) simp
  have ?thesis if "\<exists>new. events w' = events w @ new \<and>
           (\<forall>k\<le>length (filter is_Enqueue new).
              dom (snd (snd (run_workers e ctx b 0 (take k tasks) (new_pool ?n) (files w))))
                \<subseteq> dom (files w'))"
    using that pt by simp
  moreover have "\<exists>new. events w' = events w @ new \<and>
           (\<forall>k\<le>length (filter is_Enqueue new).
              dom (snd (snd (run_workers e ctx b 0 (take k tasks) (new_pool ?n) (files w))))
                \<subseteq> dom (files w'))"
  proof (cases er)
    case (Some x)
    with assms pt' pe have w': "w' = tui_event b (SendError (ModelName b) x) w2"
      by (simp add: Construct_body_def Let_def)
    have "events w' = events w @ (n1 @ n2 @ (if has_tui b then [SendError (ModelName b) x] else []))"
      using w' e2 by (simp add: tui_event_effect)
    moreover have "filter is_Enqueue
        (n1 @ n2 @ (if has_tui b then [SendError (ModelName b) x] else [])) = []"
      using w1(3) e2(2) by (simp add: is_Enqueue_def)
    moreover have "dom (files w) \<subseteq> dom (files w')" using w' w2 by (simp add: tui_event_effect)
    ultimately show ?thesis by (rule none)
  next
    case None
    note er_none = this
    show ?thesis
    proof (cases "handleDownloadTasks e ctx b1 tasks c w2")
      case None
      with er_none assms pt' pe show ?thesis by (simp add: Construct_body_def Let_def)
    next
      case (Some h)
      then obtain r3 b2 w3 ts pl where
        h: "handleDownloadTasks e ctx b1 tasks c w2 = Some (r3, b2, w3, ts, pl)"
        by (cases h) auto
      from handleDownloadTasks_queue [OF h] obtain sent n3 where
        q3: "events w3 = events w2 @ n3" "length (filter is_Enqueue n3) = length sent"
          "sent = take (length sent) tasks"
          "files w3 = snd (snd (run_workers e ctx b1 0 sent (new_pool ?n) (files w2)))"
        by blast
      have f3: "files w3 = snd (snd (run_workers e ctx b 0 sent (new_pool ?n) (files w)))"
        using q3(4) w2 b1 by (simp add: run_workers_model)
      have pre: "dom (snd (snd (run_workers e ctx b 0 (take k tasks) (new_pool ?n) (files w))))
                   \<subseteq> dom (files w3)" if "k \<le> length sent" for k
      proof -
        have "take k sent = take k (take (length sent) tasks)" using q3(3) by simp
        also have "\<dots> = take k tasks" using that by (simp add: min_def)
        finally have "take k tasks = take k sent" by simp
        with run_workers_prefix_dom [of e ctx b 0 k sent "new_pool ?n" "files w"] f3
        show ?thesis by simp
      qed
      obtain n4 where w4: "events w' = events w3 @ n4" "filter is_Enqueue n4 = []"
        "dom (files w3) \<subseteq> dom (files w')"
      proof (cases r3)
        case (Some x)
        with er_none assms pt' pe h have "w' = w3" by (simp add: Construct_body_def Let_def)
        then have "events w' = events w3 @ []" "filter is_Enqueue [] = []"
          "dom (files w3) \<subseteq> dom (files w')" by simp_all
        then show ?thesis using that by blast
      next
        case None
        obtain r4 w4 where cm: "createModelData e b2 w3 = (r4, w4)"
          by (cases "createModelData e b2 w3")
        with None er_none assms pt' pe h have "w' = w4" by (simp add: Construct_body_def Let_def)
        with createModelData_no_enqueue [OF cm] createModelData_effect [OF cm]
        show ?thesis using that by auto
      qed
      have ev: "events w' = events w @ (n1 @ n2 @ n3 @ n4)" using w4(1) q3(1) e2(1) by simp
      have cnt: "length (filter is_Enqueue (n1 @ n2 @ n3 @ n4)) = length sent"
        using w1(3) e2(2) q3(2) w4(2) by simp
      have "\<forall>k\<le>length (filter is_Enqueue (n1 @ n2 @ n3 @ n4)).
              dom (snd (snd (run_workers e ctx b 0 (take k tasks) (new_pool ?n) (files w))))
                \<subseteq> dom (files w')"
        unfolding cnt using pre w4(3) by (blast intro: order_trans)
      with ev show ?thesis by blast
    qed
  qed
  ultimately show ?thesis by blast
qed

lemma Construct_queue:
  assumes "Construct e b w = Some (r, b', w')"
  shows "\<forall>k\<le>queued w w'. dom (disk_after e b w k) \<subseteq> dom (files w')"
proof -
  have none: ?thesis if ev: "events w' = events w @ new" and q: "filter is_Enqueue new = []"
      and f: "dom (files w) \<subseteq> dom (files w')" for new
    using new_events_append [OF ev] q f by (simp add: queued_def disk_after_def)
  show ?thesis
  proof (cases "observed e (build_context b) AtGate")
    case True
    with assms have "w' = w" by (simp add: Construct_def setupDownloadEnvironment_def)
    then have "events w' = events w @ []" "filter is_Enqueue [] = []"
      "dom (files w) \<subseteq> dom (files w')" by simp_all
    then show ?thesis by (rule none)
  next
    case False
    note nobs = this
    show ?thesis
    proof (cases "modelSem w < modelSem_cap (downloader b)")
      case False
      with nobs assms show ?thesis by (simp add: Construct_def setupDownloadEnvironment_def)
    next
      case True
      note room = this
      let ?w1 = "w\<lparr>modelSem := modelSem w + 1, events := events w @ [Acquire, MkdirAll (dataPath b)]\<rparr>"
      show ?thesis
      proof (cases "os_MkdirAll_fails e (dataPath b)")
        case True
        with nobs room assms have
          "w' = (tui_event b (SetError (ModelName b)) ?w1)
                 \<lparr>modelSem := modelSem w, events := events (tui_event b (SetError (ModelName b)) ?w1) @ [Release]\<rparr>"
          by (auto simp add: Construct_def setupDownloadEnvironment_def Let_def release_def
              tui_event_effect split: if_splits)
        then have "files w' = files w"
          and "events w' = events w @
                ([Acquire, MkdirAll (dataPath b)] @ (if has_tui b then [SetError (ModelName b)] else []) @ [Release])"
          by (simp_all add: tui_event_effect)
        moreover have "filter is_Enqueue
            ([Acquire, MkdirAll (dataPath b)] @ (if has_tui b then [SetError (ModelName b)] else []) @ [Release]) = []"
          by (simp add: is_Enqueue_def)
        ultimately show ?thesis using none by simp
      next
        case False
        with nobs room have su: "setupDownloadEnvironment e b w = Some (Inr (build_context b), ?w1)"
          by (simp add: setupDownloadEnvironment_def Let_def)
        show ?thesis
        proof (cases "Construct_body e (build_context b) b ?w1")
          case None
          with su assms show ?thesis by (simp add: Construct_def)
        next
          case (Some x)
          then obtain r2 b2 w2 where cb: "Construct_body e (build_context b) b ?w1 = Some (r2, b2, w2)"
            by (cases x) auto
          from Construct_body_effect [OF cb] have m2: "modelSem w2 = modelSem w + 1" by simp
          from Construct_body_queue [OF cb] obtain new where
            n: "events w2 = events w @ [Acquire, MkdirAll (dataPath b)] @ new"
               "\<forall>k\<le>length (filter is_Enqueue new).
                  dom (snd (snd (run_workers e (build_context b) b 0
                                   (take k (fst (prepareDownloadTasks e b (files w))))
                                   (new_pool (nat (MaxConcurrentDownloads e))) (files w))))
                    \<subseteq> dom (files w2)"
            by auto
          from su cb assms m2 have
            w': "w' = w2\<lparr>modelSem := modelSem w2 - 1, events := events w2 @ [Release]\<rparr>"
            by (simp add: Construct_def release_def)
          have ev: "events w' = events w @ ([Acquire, MkdirAll (dataPath b)] @ new @ [Release])"
            using w' n(1) by simp
          have "queued w w' = length (filter is_Enqueue new)"
            using new_events_append [OF ev] by (simp add: queued_def is_Enqueue_def)
          with n(2) w' show ?thesis by (simp add: disk_after_def)
        qed
      qed
    qed
  qed
qed

lemma downloaded_on_disk:
  assumes "downloaded e b w k"
  shows "disk_after e b w (Suc k) (filePath (fst (prepareDownloadTasks e b (files w)) ! k)) \<noteq> None"
proof -
  let ?tasks = "fst (prepareDownloadTasks e b (files w))"
  let ?ctx = "build_context b"
  let ?t = "?tasks ! k"
  obtain dn pl fs where rw: "run_workers e ?ctx b 0 (take k ?tasks)
      (new_pool (nat (MaxConcurrentDownloads e))) (files w) = (dn, pl, fs)"
    by (cases "run_workers e ?ctx b 0 (take k ?tasks)
      (new_pool (nat (MaxConcurrentDownloads e))) (files w)")
  obtain r fs1 where d: "DownloadBundleFile e (observed e ?ctx (AtFetch k)) (bundleFile ?t)
      (filePath ?t) (allowNotFound ?t) fs = (r, fs1)"
    by (cases "DownloadBundleFile e (observed e ?ctx (AtFetch k)) (bundleFile ?t)
      (filePath ?t) (allowNotFound ?t) fs")
  from assms rw d have k: "k < length ?tasks" and al: "alive pl \<noteq> 0"
    and nobs: "\<not> observed e ?ctx (AtWorker k)" and ok: "r = None" "fs1 (filePath ?t) \<noteq> None"
    by (auto simp add: downloaded_def Let_def split: option.splits)
  have one: "snd (snd (run_workers e ?ctx b k [?t] pl fs)) = fs1"
    using al nobs d by (simp add: Let_def split: option.splits)
  have "take (Suc k) ?tasks = take k ?tasks @ [?t]" using k by (rule take_Suc_conv_app_nth)
  then have "disk_after e b w (Suc k) =
      snd (snd (run_workers e ?ctx b 0 (take k ?tasks @ [?t])
                  (new_pool (nat (MaxConcurrentDownloads e))) (files w)))"
    by (simp add: disk_after_def)
  also have "\<dots> = snd (snd (run_workers e ?ctx b k [?t] pl fs))"
    using run_workers_append [of e ?ctx b 0 "take k ?tasks" "[?t]"
        "new_pool (nat (MaxConcurrentDownloads e))" "files w"] rw k
    by (simp add: min_def split: prod.splits)
  finally show ?thesis using one ok by simp
qed

text \<open>
  C5, as the code has it. Let \<open>Construct\<close> return an error. If the error is not the failure
  of the manifest write itself, the call has not tried to write the manifest (no \<open>WriteFile\<close>
  event), and the manifest file is as it was, provided its path is not the destination of a
  required file. Whatever the error, the call removes no file: every file that was on disk
  at the start is on disk at the end, and so is every file that was on disk at any point of
  the workers' run through the queue; in particular every task that a worker has downloaded
  during the call has its file on disk at the end, and the scan of a later build, in
  whatever environment, reports it present.
\<close>

theorem Construct_error_writes_no_manifest_and_keeps_files:
  assumes "Construct e b w = Some (Some er, b', w')"
  shows "(er \<noteq> WriteManifestError \<longrightarrow>
            list_all (\<lambda>ev. \<not> is_WriteFile ev) (new_events w w') \<and>
            (modelJSONPath e b \<notin> set (required_files e b) \<longrightarrow>
               files w' (modelJSONPath e b) = files w (modelJSONPath e b)))
       \<and> dom (files w) \<subseteq> dom (files w')
       \<and> (\<forall>k\<le>queued w w'. dom (disk_after e b w k) \<subseteq> dom (files w'))
       \<and> (\<forall>k<queued w w'. downloaded e b w k \<longrightarrow>
             files w' (filePath (fst (prepareDownloadTasks e b (files w)) ! k)) \<noteq> None \<and>
             \<not> stat_not_exist e' (files w') (filePath (fst (prepareDownloadTasks e b (files w)) ! k)))"
proof -
  from Construct_effect [OF assms]
  obtain new where a: "dom (files w) \<subseteq> dom (files w')" "events w' = events w @ new"
    "er \<noteq> WriteManifestError \<longrightarrow> list_all (\<lambda>ev. \<not> is_WriteFile ev) new"
    "er \<noteq> WriteManifestError \<longrightarrow> modelJSONPath e b \<notin> set (required_files e b) \<longrightarrow>
       files w' (modelJSONPath e b) = files w (modelJSONPath e b)"
    by auto
  have q: "\<forall>k\<le>queued w w'. dom (disk_after e b w k) \<subseteq> dom (files w')"
    using Construct_queue [OF assms] .
  have d: "files w' (filePath (fst (prepareDownloadTasks e b (files w)) ! k)) \<noteq> None \<and>
           \<not> stat_not_exist e' (files w') (filePath (fst (prepareDownloadTasks e b (files w)) ! k))"
    if "k < queued w w'" and "downloaded e b w k" for k
  proof -
    from that(1) q have "dom (disk_after e b w (Suc k)) \<subseteq> dom (files w')" by simp
    with downloaded_on_disk [OF that(2)]
    have "files w' (filePath (fst (prepareDownloadTasks e b (files w)) ! k)) \<noteq> None"
      by (auto simp add: dom_def)
    then show ?thesis by (simp add: stat_not_exist_def)
  qed
  from a q d new_events_append [OF a(2)] show ?thesis by simp
qed

theorem Construct_error_writes_no_manifest_and_keeps_files_witness:
  "fst (the (Construct (without ''http://h/b_rip/texture_00.png'' example_env) example_builder
               empty_world))
     = Some (DownloadFailed (HTTPStatusError 404)) \<and>
   files (snd (snd (the (Construct (without ''http://h/b_rip/texture_00.png'' example_env)
                           example_builder empty_world)))) ''m/model.json'' = None \<and>
   files (snd (snd (the (Construct (without ''http://h/b_rip/texture_00.png'' example_env)
                           example_builder empty_world)))) ''m/data/model.moc'' \<noteq> None \<and>
   \<not> stat_not_exist example_env
       (files (snd (snd (the (Construct (without ''http://h/b_rip/texture_00.png'' example_env)
                           example_builder empty_world))))) ''m/data/model.moc'' \<and>
   files (snd (snd (the (Construct (without ''http://h/b_rip/texture_00.png'' example_env)
                           example_builder empty_world)))) ''m/data/motions/idle01.mtn'' \<noteq> None"
proof -
  let ?E = "without ''http://h/b_rip/texture_00.png'' example_env"
  have "\<exists>b' w'. Construct ?E example_builder empty_world
          = Some (Some (DownloadFailed (HTTPStatusError 404)), b', w') \<and> queued empty_world w' = 4"
    by (simp add: run_defs example_defs queued_def new_events_def is_Enqueue_def)
  then obtain b' w' where c: "Construct ?E example_builder empty_world
      = Some (Some (DownloadFailed (HTTPStatusError 404)), b', w')"
    and q: "queued empty_world w' = 4" by blast
  have p: "modelJSONPath ?E example_builder \<notin> set (required_files ?E example_builder)"
    and m: "modelJSONPath ?E example_builder = ''m/model.json''"
    by (simp_all add: modelJSONPath_def required_files_def example_defs)
  have t: "fst (prepareDownloadTasks ?E example_builder (files empty_world)) ! 0 =
      \<lparr>bundleFile = in_bundle ''model.moc'', filePath = ''m/data/model.moc'',
       allowNotFound = False, result = []\<rparr>"
    using example_tasks_any [of "''http://h/b_rip/texture_00.png''"]
    by (simp add: empty_world_def)
  have d: "downloaded ?E example_builder empty_world 0"
    unfolding downloaded_def Let_def t
    using example_tasks_any [of "''http://h/b_rip/texture_00.png''"]
    by (simp add: empty_world_def new_pool_def observed_def build_context_def
        DownloadBundleFile_def createDownloadRequest_def
        validateResponse_def createFileAndDirectory_def writeFileContent_def HasPrefix_def
        example_defs)
  have da: "disk_after ?E example_builder empty_world 4 ''m/data/motions/idle01.mtn'' \<noteq> None"
    unfolding disk_after_def
    using example_tasks_any [of "''http://h/b_rip/texture_00.png''"]
    by (simp add: empty_world_def new_pool_def observed_def build_context_def
        DownloadBundleFile_def createDownloadRequest_def worker_result_def chan_send_def
        validateResponse_def createFileAndDirectory_def writeFileContent_def HasPrefix_def
        example_defs)
  from Construct_error_writes_no_manifest_and_keeps_files [OF c, of example_env] p m
  have 1: "files w' ''m/model.json'' = files empty_world ''m/model.json''"
    and 3: "\<forall>k\<le>queued empty_world w'. dom (disk_after ?E example_builder empty_world k) \<subseteq> dom (files w')"
    and 2: "\<forall>k<queued empty_world w'. downloaded ?E example_builder empty_world k \<longrightarrow>
             files w' (filePath (fst (prepareDownloadTasks ?E example_builder (files empty_world)) ! k)) \<noteq> None \<and>
             \<not> stat_not_exist example_env (files w')
                 (filePath (fst (prepareDownloadTasks ?E example_builder (files empty_world)) ! k))"
    by simp_all
  from 2 q d have "files w' (filePath (fst (prepareDownloadTasks ?E example_builder (files empty_world)) ! 0)) \<noteq> None \<and>
             \<not> stat_not_exist example_env (files w')
                 (filePath (fst (prepareDownloadTasks ?E example_builder (files empty_world)) ! 0))"
    by simp
  then have "files w' ''m/data/model.moc'' \<noteq> None"
    and "\<not> stat_not_exist example_env (files w') ''m/data/model.moc''"
    unfolding t by simp_all
  moreover from 3 q have "dom (disk_after ?E example_builder empty_world 4) \<subseteq> dom (files w')"
    by simp
  with da have "files w' ''m/data/motions/idle01.mtn'' \<noteq> None" by (auto simp add: dom_def)
  ultimately have "files w' ''m/model.json'' = files empty_world ''m/model.json''"
    and "files w' ''m/data/model.moc'' \<noteq> None"
    and "\<not> stat_not_exist example_env (files w') ''m/data/model.moc''"
    and "files w' ''m/data/motions/idle01.mtn'' \<noteq> None"
    using 1 by simp_all
  with c show ?thesis by (simp add: empty_world_def)
qed

text \<open>
  C5, as worded, fails when the manifest write itself fails on a full disk, after an
  earlier build has left every file and a manifest: \<open>Construct\<close> returns the write error, and
  the manifest is no longer what it was; the call has opened and truncated it.
\<close>

theorem failed_manifest_write_truncates_manifest:
  "fst (the (Construct (with_full_disk example_env) example_builder complete_world))
     = Some WriteManifestError \<and>
   files complete_world ''m/model.json'' = Some ''old manifest'' \<and>
   files (snd (snd (the (Construct (with_full_disk example_env) example_builder complete_world))))
     ''m/model.json'' = Some [] \<and>
   WriteFile ''m/model.json''
     \<in> set (events (snd (snd (the (Construct (with_full_disk example_env) example_builder
                                          complete_world)))))"
  by (simp add: run_defs example_defs with_full_disk_def complete_world_def
      getFileType_def HasSuffix_def)

section \<open>A build in which one request is answered with 404\<close>

lemma handleDownloadTasks_uncancelled:
  assumes nc: "\<forall>s. \<not> observed e ctx s"
    and n: "0 < MaxConcurrentDownloads e"
    and em: "list_all (\<lambda>t. result t = []) tasks"
  shows "\<exists>w' ts' pl.
            handleDownloadTasks e ctx b tasks c w =
              Some (first_error e b tasks, b\<lparr>model := update_all (model b) (folded e b tasks)\<rparr>,
                    w', ts', pl)
            \<and> map result ts' = channels_left e b tasks
            \<and> blocked_on_result pl = 0
            \<and> modelSem w' = modelSem w
            \<and> files w' = snd (snd (run_workers e ctx b 0 tasks
                                     (new_pool (nat (MaxConcurrentDownloads e))) (files w)))"
proof (cases "tasks = []")
  case True
  then show ?thesis
    by (simp add: handleDownloadTasks_def first_error_def folded_def channels_left_def new_pool_def)
next
  case False
  let ?n = "nat (MaxConcurrentDownloads e)"
  have al: "0 < alive (new_pool ?n)" using n by (simp add: new_pool_def)
  from run_workers_uncancelled [OF nc al em, of b 0 "files w"]
  obtain fs' where rw: "run_workers e ctx b 0 tasks (new_pool ?n) (files w) =
      (map (\<lambda>t. t\<lparr>result := [delivered e b t]\<rparr>) tasks, new_pool ?n, fs')" by blast
  let ?w1 = "w\<lparr>files := fs',
      events := events w @ [StartWorkerPool ?n] @ map (\<lambda>t. Enqueue (filePath t)) tasks\<rparr>"
  let ?w2 = "?w1\<lparr>events := events ?w1 @ [CloseQueue]\<rparr>"
  from processDownloadResults_uncancelled [OF nc, of b 0 b tasks c ?w2]
  obtain w' ts' where pr: "processDownloadResults e ctx b 0
           (map (\<lambda>t. t\<lparr>result := [delivered e b t]\<rparr>) tasks) c ?w2
         = Some (first_error e b tasks,
                 b\<lparr>model := update_all (model b) (folded e b tasks)\<rparr>, w', ts')"
    and ch: "map result ts' = channels_left e b tasks" by blast
  from processDownloadResults_effect [OF pr]
  have w': "files w' = fs'" "modelSem w' = modelSem w" by simp_all
  show ?thesis
    using False rw pr ch w' send_tasks_uncancelled [OF nc, of 0 tasks]
    by (cases "first_error e b tasks")
       (simp_all add: handleDownloadTasks_def Let_def new_pool_def tui_event_effect)
qed

lemma Physics_updateModelData:
  "Live2dModel.Physics (updateModelData acc fp rp) =
     (if getFileType fp = ''physics'' then rp else Live2dModel.Physics acc)"
proof (cases "getFileType fp = ''physics''")
  case True
  then show ?thesis by (simp add: updateModelData_def Let_def)
next
  case False
  then show ?thesis unfolding updateModelData_def Let_def
    by (simp split: if_splits)
qed

lemma Physics_update_all_keep:
  "\<forall>x\<in>set ups. getFileType (fst x) = ''physics'' \<longrightarrow> snd x = rp \<Longrightarrow>
   Live2dModel.Physics acc = rp \<Longrightarrow> Live2dModel.Physics (update_all acc ups) = rp"
proof (induction ups arbitrary: acc)
  case Nil
  then show ?case by simp
next
  case (Cons x ups)
  obtain fp r where x: "x = (fp, r)" by (cases x)
  have 1: "\<forall>x\<in>set ups. getFileType (fst x) = ''physics'' \<longrightarrow> snd x = rp"
    using Cons.prems(1) by simp
  have 2: "Live2dModel.Physics (updateModelData acc fp r) = rp"
    using Cons.prems x by (simp add: Physics_updateModelData)
  from Cons.IH [OF 1 2] x show ?case by simp
qed

lemma Physics_update_all_set:
  "(fp, rp) \<in> set ups \<Longrightarrow> getFileType fp = ''physics'' \<Longrightarrow>
   \<forall>x\<in>set ups. getFileType (fst x) = ''physics'' \<longrightarrow> snd x = rp \<Longrightarrow>
   Live2dModel.Physics (update_all acc ups) = rp"
proof (induction ups arbitrary: acc)
  case Nil
  then show ?case by simp
next
  case (Cons x ups)
  obtain fp' r where x: "x = (fp', r)" by (cases x)
  have 1: "\<forall>x\<in>set ups. getFileType (fst x) = ''physics'' \<longrightarrow> snd x = rp"
    using Cons.prems(3) by simp
  show ?case
  proof (cases "(fp, rp) \<in> set ups")
    case True
    from Cons.IH [OF True Cons.prems(2) 1, of "updateModelData acc fp' r"] x
    show ?thesis by simp
  next
    case False
    with Cons.prems(1) x have "fp' = fp" "r = rp" by simp_all
    then have 2: "Live2dModel.Physics (updateModelData acc fp' r) = rp"
      using Cons.prems(2) by (simp add: Physics_updateModelData)
    from Physics_update_all_keep [OF 1 2] x show ?thesis by simp
  qed
qed

lemma all_succeed:
  assumes "\<forall>t\<in>set ts. succeeds e b t"
  shows "first_error e b ts = None"
    and "folded e b ts = map (\<lambda>t. (filePath t, relPath (delivered e b t))) ts"
proof -
  have d: "dropWhile (succeeds e b) ts = []" and t: "takeWhile (succeeds e b) ts = ts"
    using assms by (simp_all add: takeWhile_eq_all_conv)
  show "first_error e b ts = None" by (simp add: first_error_def d)
  show "folded e b ts = map (\<lambda>t. (filePath t, relPath (delivered e b t))) ts"
    by (simp add: folded_def t)
qed

lemma first_error_single_failure:
  assumes "t \<in> set ts" and "\<not> succeeds e b t" and "\<forall>t'\<in>set ts. t' \<noteq> t \<longrightarrow> succeeds e b t'"
  shows "first_error e b ts = err (delivered e b t)"
proof -
  have ne: "dropWhile (succeeds e b) ts \<noteq> []"
    using assms(1,2) by (auto simp: dropWhile_eq_Nil_conv)
  then obtain x rest where d: "dropWhile (succeeds e b) ts = x # rest"
    by (cases "dropWhile (succeeds e b) ts") auto
  have "\<not> succeeds e b x" using hd_dropWhile [OF ne] d by simp
  moreover have "x \<in> set ts" using set_dropWhileD [of x "succeeds e b" ts] d by simp
  ultimately have "x = t" using assms(3) by blast
  with d show ?thesis by (simp add: first_error_def)
qed

lemma check_files_keeps:
  "set (fst acc) \<subseteq> set (fst (check_files e fs dir bfs acc))"
proof (induction bfs arbitrary: acc)
  case Nil
  then show ?case by simp
next
  case (Cons bf bfs)
  have "set (fst acc) \<subseteq> set (fst (check_file e fs bf (filepath_Join e dir (FileName bf)) False acc))"
    by (auto simp: check_file_def)
  with Cons.IH [of "check_file e fs bf (filepath_Join e dir (FileName bf)) False acc"]
  show ?case by auto
qed

lemma check_files_mandatory:
  "t \<in> set (fst (check_files e fs dir bfs acc)) \<Longrightarrow> allowNotFound t \<Longrightarrow> t \<in> set (fst acc)"
proof (induction bfs arbitrary: acc)
  case Nil
  then show ?case by simp
next
  case (Cons bf bfs)
  from Cons.IH [of "check_file e fs bf (filepath_Join e dir (FileName bf)) False acc"] Cons.prems
  show ?case by (auto simp: check_file_def split: if_splits)
qed

lemma physics_task_only_optional:
  assumes "t \<in> set (fst (prepareDownloadTasks e b fs))" and "allowNotFound t"
  shows "t = \<lparr>bundleFile = BuildData.Physics (data b), filePath = physicsFile e b,
              allowNotFound = True, result = []\<rparr>"
proof -
  let ?acc1 = "check_file e fs (BuildData.Model (data b)) (filepath_Join e (dataPath b) ''model.moc'') False ([], [])"
  let ?acc2 = "check_file e fs (BuildData.Physics (data b)) (filepath_Join e (dataPath b) ''physics.json'') True ?acc1"
  from assms have "t \<in> set (fst ?acc2)"
    by (auto simp: prepareDownloadTasks_def Let_def dest!: check_files_mandatory)
  with assms(2) show ?thesis
    by (auto simp: check_file_def physicsFile_def split: if_splits)
qed

lemma fetch_404:
  assumes "createDownloadRequest e bf = Inr url" and "http_Do e url = Some resp"
    and "StatusCode resp = 404"
  shows "DownloadBundleFile e c bf fp allowNF fs =
           (if c then (Some CancelledError, fs)
            else if allowNF then (None, fs)
            else (Some (HTTPStatusError 404), fs))"
  using assms by (simp add: DownloadBundleFile_def validateResponse_def)

lemma delivered_tolerated_404:
  assumes "createDownloadRequest e (bundleFile t) = Inr url" and "http_Do e url = Some resp"
    and "StatusCode resp = 404" and "allowNotFound t"
    and "filepath_Rel e (path b) (filePath t) = Some rel"
  shows "delivered e b t = \<lparr>relPath = filepath_ToSlash e rel, err = None\<rparr>"
  using assms fetch_404 [OF assms(1-3), of False "filePath t" True Map.empty]
  by (simp add: delivered_def worker_result_def)

lemma delivered_mandatory_404:
  assumes "createDownloadRequest e (bundleFile t) = Inr url" and "http_Do e url = Some resp"
    and "StatusCode resp = 404" and "\<not> allowNotFound t"
  shows "delivered e b t = \<lparr>relPath = [], err = Some (DownloadFailed (HTTPStatusError 404))\<rparr>"
  using assms fetch_404 [OF assms(1-3), of False "filePath t" False Map.empty]
  by (simp add: delivered_def worker_result_def)

lemma run_workers_unwritten:
  assumes "run_workers e ctx b i tasks pl fs = (ts', pl', fs')"
    and "\<forall>t\<in>set tasks. filePath t = p \<longrightarrow>
           (\<forall>c fs0. snd (DownloadBundleFile e c (bundleFile t) (filePath t) (allowNotFound t) fs0) p = fs0 p)"
  shows "fs' p = fs p"
  using assms
proof (induction tasks arbitrary: i pl fs ts' pl' fs')
  case Nil
  then show ?case by simp
next
  case (Cons t ts)
  have rest: "\<forall>t\<in>set ts. filePath t = p \<longrightarrow>
           (\<forall>c fs0. snd (DownloadBundleFile e c (bundleFile t) (filePath t) (allowNotFound t) fs0) p = fs0 p)"
    using Cons.prems(2) by simp
  show ?case
  proof (cases "alive pl = 0")
    case True
    with Cons.prems(1) show ?thesis by simp
  next
    case False
    show ?thesis
    proof (cases "observed e ctx (AtWorker i)")
      case True
      with False Cons.prems(1) obtain ts'' pl0 where
        rec: "run_workers e ctx b (i + 1) ts pl0 fs = (ts'', pl', fs')"
        by (auto simp: Let_def split: prod.splits option.splits)
      from Cons.IH [OF rec rest] show ?thesis .
    next
      case obs: False
      obtain er fs1 where d: "DownloadBundleFile e (observed e ctx (AtFetch i)) (bundleFile t)
          (filePath t) (allowNotFound t) fs = (er, fs1)"
        by (cases "DownloadBundleFile e (observed e ctx (AtFetch i)) (bundleFile t)
          (filePath t) (allowNotFound t) fs")
      have here: "fs1 p = fs p"
      proof (cases "filePath t = p")
        case True
        with Cons.prems(2) d show ?thesis by (metis list.set_intros(1) snd_conv)
      next
        case False
        then show ?thesis
          using DownloadBundleFile_elsewhere [of p "filePath t" e "observed e ctx (AtFetch i)"
              "bundleFile t" "allowNotFound t" fs] d by simp
      qed
      from False obs d Cons.prems(1)
      obtain ts'' pl0 where rec: "run_workers e ctx b (i + 1) ts pl0 fs1 = (ts'', pl', fs')"
        by (auto simp: Let_def split: prod.splits option.splits)
      from Cons.IH [OF rec rest] here show ?thesis by simp
    qed
  qed
qed

lemma task_paths_distinct:
  "distinct (required_files e b) \<Longrightarrow> distinct (map filePath (fst (prepareDownloadTasks e b fs)))"
  by (simp add: prepare_fst)

lemma physics_task_in:
  assumes "stat_not_exist e fs (physicsFile e b)"
  shows "\<lparr>bundleFile = BuildData.Physics (data b), filePath = physicsFile e b,
           allowNotFound = True, result = []\<rparr> \<in> set (fst (prepareDownloadTasks e b fs))"
proof -
  let ?acc1 = "check_file e fs (BuildData.Model (data b)) (filepath_Join e (dataPath b) ''model.moc'') False ([], [])"
  let ?acc2 = "check_file e fs (BuildData.Physics (data b)) (filepath_Join e (dataPath b) ''physics.json'') True ?acc1"
  have "\<lparr>bundleFile = BuildData.Physics (data b), filePath = physicsFile e b,
           allowNotFound = True, result = []\<rparr> \<in> set (fst ?acc2)"
    using assms by (simp add: check_file_def physicsFile_def)
  then show ?thesis
    unfolding prepareDownloadTasks_def Let_def
    using check_files_keeps by blast
qed

lemma physicsFile_required: "physicsFile e b \<in> set (required_files e b)"
  by (simp add: required_files_def physicsFile_def)

lemma createModelData_written:
  "os_WriteFile e (modelJSONPath e b) = WriteOK \<Longrightarrow>
   createModelData e b w =
     (None, w\<lparr>events := events w @ [WriteFile (modelJSONPath e b)],
             files := (files w)(modelJSONPath e b \<mapsto> render e 0 (Data_json (modelData b)))\<rparr>)"
  by (simp add: createModelData_def MarshalIndent_def modelJSONPath_def Let_def)

lemma example_required:
  "required_files (without u example_env) example_builder =
     [''m/data/model.moc'', ''m/data/physics.json'', ''m/data/textures/texture_00.png'',
      ''m/data/motions/idle01.mtn'']"
  by (simp add: required_files_def example_defs)

lemmas fetch_defs =
  succeeds_def delivered_def DownloadBundleFile_def createDownloadRequest_def
  validateResponse_def createFileAndDirectory_def writeFileContent_def worker_result_def
  HasPrefix_def

text \<open>
  What a 404 does to a build in general. Take a build in which no cancellation is observed,
  the gate has room, at least one worker runs, neither the directory creation nor a relative
  path fails, one task is answered with status 404 and every other task succeeds.
  \<^item> If that task is the optional one, it is the physics task. Then, the required paths
    being distinct, the manifest path none of them, the physics path the only one classified
    as physics, and the manifest write succeeding, \<open>Construct\<close> returns no error and no
    physics file is on disk; and the accumulator's physics path is the relative path of the
    physics file, the outcome of the task, which the manifest carries in its physics field.
  \<^item> If that task is a mandatory one (a texture, for instance), \<open>Construct\<close> returns the
    download failure that carries the HTTP status error 404.
\<close>

lemma tolerated_404_in_general:
  assumes nc: "\<forall>s. \<not> observed e (build_context b) s"
    and room: "modelSem w < modelSem_cap (downloader b)"
    and n: "0 < MaxConcurrentDownloads e"
    and mk: "\<not> os_MkdirAll_fails e (dataPath b)"
    and rel: "\<forall>p\<in>set (required_files e b). filepath_Rel e (path b) p \<noteq> None"
    and t: "t \<in> set (fst (prepareDownloadTasks e b (files w)))"
    and url: "createDownloadRequest e (bundleFile t) = Inr url"
    and resp: "http_Do e url = Some resp"
    and st: "StatusCode resp = 404"
    and others: "\<forall>t'\<in>set (fst (prepareDownloadTasks e b (files w))). t' \<noteq> t \<longrightarrow> succeeds e b t'"
  shows "(allowNotFound t \<and> distinct (required_files e b) \<and>
          modelJSONPath e b \<notin> set (required_files e b) \<and>
          (\<forall>p\<in>set (required_files e b). getFileType p = ''physics'' \<longleftrightarrow> p = physicsFile e b) \<and>
          os_WriteFile e (modelJSONPath e b) = WriteOK \<longrightarrow>
            filePath t = physicsFile e b \<and>
            (\<exists>b' w'. Construct e b w = Some (None, b', w') \<and>
               files w' (physicsFile e b) = None \<and>
               Live2dModel.Physics (model b')
                 = filepath_ToSlash e (the (filepath_Rel e (path b) (physicsFile e b))) \<and>
               Data.Physics (modelData b')
                 = filepath_ToSlash e (the (filepath_Rel e (path b) (physicsFile e b))) \<and>
               files w' (modelJSONPath e b) = Some (render e 0 (Data_json (modelData b')))))
       \<and> (\<not> allowNotFound t \<longrightarrow>
            (\<exists>b' w'. Construct e b w = Some (Some (DownloadFailed (HTTPStatusError 404)), b', w')))"
proof -
  obtain tasks ex where pt: "prepareDownloadTasks e b (files w) = (tasks, ex)"
    by (cases "prepareDownloadTasks e b (files w)")
  have tt: "t \<in> set tasks" using t pt by simp
  have oth: "\<forall>t'\<in>set tasks. t' \<noteq> t \<longrightarrow> succeeds e b t'" using others pt by simp
  have nobs: "\<not> observed e (build_context b) AtGate" using nc by simp
  have "set ex \<subseteq> set (required_files e b)"
    using prepare_snd [of e b "files w"] pt by auto
  with rel have rel': "\<forall>p\<in>set ex. filepath_Rel e (path b) p \<noteq> None" by blast
  let ?ups = "map (\<lambda>p. (p, filepath_ToSlash e (the (filepath_Rel e (path b) p)))) ex"
  let ?b1 = "b\<lparr>model := update_all (model b) ?ups\<rparr>"
  have p1: "path ?b1 = path b" by simp
  from Construct_unfold [OF nobs room mk pt rel']
  obtain w2 where w2: "files w2 = files w"
    and eq: "Construct e b w =
       (case handleDownloadTasks e (build_context b) ?b1 tasks (length ex) w2 of
          None \<Rightarrow> None
        | Some (r3, b2, w3, ts, pl) \<Rightarrow>
            (case r3 of
               Some x \<Rightarrow> Some (Some x, b2, w3\<lparr>modelSem := modelSem w3 - 1, events := events w3 @ [Release]\<rparr>)
             | None \<Rightarrow>
                 Some (fst (createModelData e b2 w3), b2,
                       (snd (createModelData e b2 w3))
                         \<lparr>modelSem := modelSem (snd (createModelData e b2 w3)) - 1,
                          events := events (snd (createModelData e b2 w3)) @ [Release]\<rparr>)))"
    by blast
  have em: "list_all (\<lambda>t. result t = []) tasks"
    using prepare_channels [of e b "files w"] pt by simp
  let ?b2 = "?b1\<lparr>model := update_all (model ?b1) (folded e b tasks)\<rparr>"
  let ?n = "nat (MaxConcurrentDownloads e)"
  from handleDownloadTasks_uncancelled [OF nc n em, of ?b1 "length ex" w2]
  obtain w3 ts' pl where
    h: "handleDownloadTasks e (build_context b) ?b1 tasks (length ex) w2 =
          Some (first_error e b tasks, ?b2, w3, ts', pl)"
    and f3: "files w3 = snd (snd (run_workers e (build_context b) ?b1 0 tasks (new_pool ?n) (files w2)))"
    unfolding first_error_path [OF p1] folded_path [OF p1] by blast
  have mandatory: "\<exists>b' w'. Construct e b w = Some (Some (DownloadFailed (HTTPStatusError 404)), b', w')"
    if "\<not> allowNotFound t"
  proof -
    have d: "delivered e b t = \<lparr>relPath = [], err = Some (DownloadFailed (HTTPStatusError 404))\<rparr>"
      using delivered_mandatory_404 [OF url resp st that] .
    then have "\<not> succeeds e b t" by (simp add: succeeds_def)
    from first_error_single_failure [OF tt this oth] d
    have "first_error e b tasks = Some (DownloadFailed (HTTPStatusError 404))" by simp
    with eq h show ?thesis by simp
  qed
  have optional: "filePath t = physicsFile e b \<and>
            (\<exists>b' w'. Construct e b w = Some (None, b', w') \<and>
               files w' (physicsFile e b) = None \<and>
               Live2dModel.Physics (model b')
                 = filepath_ToSlash e (the (filepath_Rel e (path b) (physicsFile e b))) \<and>
               Data.Physics (modelData b')
                 = filepath_ToSlash e (the (filepath_Rel e (path b) (physicsFile e b))) \<and>
               files w' (modelJSONPath e b) = Some (render e 0 (Data_json (modelData b'))))"
    if a: "allowNotFound t" and dis: "distinct (required_files e b)"
      and mp: "modelJSONPath e b \<notin> set (required_files e b)"
      and kind: "\<forall>p\<in>set (required_files e b). getFileType p = ''physics'' \<longleftrightarrow> p = physicsFile e b"
      and wr: "os_WriteFile e (modelJSONPath e b) = WriteOK"
  proof -
    let ?p = "physicsFile e b"
    have tp: "t = \<lparr>bundleFile = BuildData.Physics (data b), filePath = ?p,
                  allowNotFound = True, result = []\<rparr>"
      using physics_task_only_optional [OF t a] .
    then have fp: "filePath t = ?p" by simp
    from rel physicsFile_required [of e b]
    obtain rel0 where r0: "filepath_Rel e (path b) ?p = Some rel0" by auto
    have d: "delivered e b t = \<lparr>relPath = filepath_ToSlash e rel0, err = None\<rparr>"
      using delivered_tolerated_404 [OF url resp st a, of b rel0] r0 fp by simp
    then have "succeeds e b t" by (simp add: succeeds_def)
    with oth have all: "\<forall>t'\<in>set tasks. succeeds e b t'" by auto
    have fe: "first_error e b tasks = None" using all_succeed(1) [OF all] .
    have fo: "folded e b tasks = map (\<lambda>t. (filePath t, relPath (delivered e b t))) tasks"
      using all_succeed(2) [OF all] .
    have inj: "inj_on filePath (set tasks)"
      using task_paths_distinct [OF dis, of "files w"] pt by (simp add: distinct_map)
    have same: "t' = t" if "t' \<in> set tasks" "filePath t' = ?p" for t'
      using inj_onD [OF inj, of t' t] that tt fp by simp
    have paths: "filePath ` set tasks \<subseteq> set (required_files e b)"
      using prepare_paths [of e b "files w"] pt by simp
    \<comment> \<open>the files\<close>
    have missing: "files w ?p = None"
    proof -
      have "?p \<in> set (filter (stat_not_exist e (files w)) (required_files e b))"
        using arg_cong [OF prepare_fst [of e b "files w"], of set] pt tt fp by force
      then show ?thesis by (simp add: stat_not_exist_def)
    qed
    obtain dn pl1 fs3 where rw:
      "run_workers e (build_context b) ?b1 0 tasks (new_pool ?n) (files w2) = (dn, pl1, fs3)"
      by (cases "run_workers e (build_context b) ?b1 0 tasks (new_pool ?n) (files w2)")
    have unw: "\<forall>t'\<in>set tasks. filePath t' = ?p \<longrightarrow>
        (\<forall>c fs0. snd (DownloadBundleFile e c (bundleFile t') (filePath t') (allowNotFound t') fs0) ?p = fs0 ?p)"
    proof (intro ballI impI allI)
      fix t' c fs0
      assume "t' \<in> set tasks" "filePath t' = ?p"
      then have "t' = t" by (rule same)
      then show "snd (DownloadBundleFile e c (bundleFile t') (filePath t') (allowNotFound t') fs0) ?p = fs0 ?p"
        using fetch_404 [OF url resp st, of c "filePath t" "allowNotFound t" fs0] a by simp
    qed
    from run_workers_unwritten [OF rw unw] have "fs3 ?p = files w2 ?p" .
    with f3 rw w2 missing have p3: "files w3 ?p = None" by simp
    \<comment> \<open>the manifest\<close>
    have mj: "modelJSONPath e ?b2 = modelJSONPath e b" by (simp add: modelJSONPath_def)
    have cm: "createModelData e ?b2 w3 =
       (None, w3\<lparr>events := events w3 @ [WriteFile (modelJSONPath e b)],
               files := (files w3)(modelJSONPath e b \<mapsto> render e 0 (Data_json (modelData ?b2)))\<rparr>)"
      using createModelData_written [of e ?b2 w3] wr mj by simp
    let ?w4 = "w3\<lparr>events := events w3 @ [WriteFile (modelJSONPath e b)],
               files := (files w3)(modelJSONPath e b \<mapsto> render e 0 (Data_json (modelData ?b2)))\<rparr>"
    let ?w' = "?w4\<lparr>modelSem := modelSem ?w4 - 1, events := events ?w4 @ [Release]\<rparr>"
    have c: "Construct e b w = Some (None, ?b2, ?w')"
      using eq h fe cm by simp
    have ne: "modelJSONPath e b \<noteq> ?p" using mp physicsFile_required [of e b] by auto
    have f1: "files ?w' ?p = None" using p3 ne by simp
    have f2: "files ?w' (modelJSONPath e b) = Some (render e 0 (Data_json (modelData ?b2)))"
      by simp
    \<comment> \<open>the accumulator\<close>
    have k: "getFileType ?p = ''physics''" using kind physicsFile_required [of e b] by blast
    have mem: "(?p, filepath_ToSlash e rel0) \<in> set (folded e b tasks)"
      unfolding fo using tt fp d by force
    have uniq: "\<forall>x\<in>set (folded e b tasks). getFileType (fst x) = ''physics'' \<longrightarrow>
                  snd x = filepath_ToSlash e rel0"
    proof (intro ballI impI)
      fix x assume x: "x \<in> set (folded e b tasks)" and g: "getFileType (fst x) = ''physics''"
      from x fo obtain t' where t': "t' \<in> set tasks" "x = (filePath t', relPath (delivered e b t'))"
        by auto
      with paths have "filePath t' \<in> set (required_files e b)" by blast
      with kind g t' have "filePath t' = ?p" by simp
      with t' have "t' = t" using same by blast
      with t' d show "snd x = filepath_ToSlash e rel0" by simp
    qed
    have ph: "Live2dModel.Physics (model ?b2) = filepath_ToSlash e rel0"
      using Physics_update_all_set [OF mem k uniq, of "update_all (model b) ?ups"] by simp
    have ph': "Data.Physics (modelData ?b2) = filepath_ToSlash e rel0"
      using ph by (simp add: modelData_def)
    from c f1 f2 ph ph' r0 fp show ?thesis by (intro conjI exI [of _ ?b2] exI [of _ ?w']) simp_all
  qed
  from optional mandatory show ?thesis by blast
qed

text \<open>
  C6. In the small build, when the host has no physics file (status 404) and serves every
  other file, \<open>Construct\<close> returns no error and writes no physics file; but the accumulator's
  physics path is not left empty: the worker reports the tolerated 404 as an ordinary
  outcome that carries the relative path, the builder stores it, and the manifest that is
  written names \<open>data/physics.json\<close>, a file that is not on disk. The same 404 for the texture
  makes the build fail with the download failure that carries the HTTP status error 404.
\<close>

theorem physics_path_recorded_without_file:
  "fst (the (Construct (without ''http://h/b_rip/physics.json'' example_env) example_builder
               empty_world)) = None \<and>
   files (snd (snd (the (Construct (without ''http://h/b_rip/physics.json'' example_env)
                           example_builder empty_world)))) ''m/data/physics.json'' = None \<and>
   Live2dModel.Physics (model (fst (snd (the (Construct
       (without ''http://h/b_rip/physics.json'' example_env) example_builder empty_world)))))
     = ''data/physics.json'' \<and>
   Data.Physics (modelData (fst (snd (the (Construct
       (without ''http://h/b_rip/physics.json'' example_env) example_builder empty_world)))))
     = ''data/physics.json'' \<and>
   files (snd (snd (the (Construct (without ''http://h/b_rip/physics.json'' example_env)
                           example_builder empty_world)))) ''m/model.json''
     = Some (render (without ''http://h/b_rip/physics.json'' example_env) 0
               (Data_json (modelData (fst (snd (the (Construct
                  (without ''http://h/b_rip/physics.json'' example_env) example_builder
                  empty_world))))))) \<and>
   fst (the (Construct (without ''http://h/b_rip/texture_00.png'' example_env) example_builder
               empty_world)) = Some (DownloadFailed (HTTPStatusError 404))"
  by (simp add: run_defs example_defs updateModelData_def getFileType_def HasSuffix_def
      modelData_def)

section \<open>Properties of the manifest\<close>

lemma sort_key_same_map:
  assumes "distinct (map fst xs)" and "distinct (map fst ys)" and "map_of xs = map_of ys"
  shows "sort_key fst xs = sort_key fst (ys :: ('k::linorder \<times> 'v) list)"
proof -
  have s: "set xs = set ys" using map_of_inject_set [OF assms(1,2)] assms(3) by simp
  have i: "inj_on fst (set (sort_key fst xs) \<union> set (sort_key fst ys))"
    using assms(1) s by (simp add: distinct_map)
  have dx: "distinct (map fst (sort_key fst xs))" using assms(1) by (simp add: distinct_map)
  have dy: "distinct (map fst (sort_key fst ys))" using assms(2) by (simp add: distinct_map)
  show ?thesis
    by (rule map_sorted_distinct_set_unique [OF i _ dx _ dy]) (simp_all add: s)
qed

lemma json_map_same_map:
  "distinct (map fst xs) \<Longrightarrow> distinct (map fst ys) \<Longrightarrow> map_of xs = map_of ys \<Longrightarrow>
   json_map f xs = json_map f ys"
  by (simp add: json_map_def sort_key_same_map [of xs ys])

lemma render_members_append:
  "ms \<noteq> [] \<Longrightarrow> ms' \<noteq> [] \<Longrightarrow>
   render_members e d (ms @ ms') = render_members e d ms @ '','' @ render_members e d ms'"
proof (induction ms)
  case Nil
  then show ?case by simp
next
  case (Cons kv ms)
  then show ?case by (cases "ms = []") simp_all
qed

lemma sorted_layout:
  "sort_key fst [(''center_x'', 0 :: real), (''center_y'', 0), (''width'', 2)]
     = [(''center_x'', 0), (''center_y'', 0), (''width'', 2)]"
  by simp

lemma sorted_hit_areas:
  "sort_key fst [(''head_x'', [- 0.25, 1 :: real]), (''head_y'', [0.25, 0.2]),
                 (''body_x'', [- 0.3, 0.2]), (''body_y'', [0.3, - 1.9])]
     = [(''body_x'', [- 0.3, 0.2]), (''body_y'', [0.3, - 1.9]),
        (''head_x'', [- 0.25, 1]), (''head_y'', [0.25, 0.2])]"
  by simp

lemma Data_json_modelData:
  "Data_json (modelData b) = JObject (fixed_members @ accumulated_members (model b))"
  by (simp add: Data_json_def modelData_def fixed_members_def accumulated_members_def
      json_map_def json_slice_def)

lemma accumulated_members_same:
  "same_contents a a' \<Longrightarrow> accumulated_members a = accumulated_members a'"
  unfolding same_contents_def accumulated_members_def
  using json_map_same_map [of "Live2dModel.Motions a" "Live2dModel.Motions a'"]
  by simp

lemma MarshalIndent_modelData:
  "MarshalIndent e (modelData b) =
     Inr (''{'' @ render_members e 1 fixed_members @ '','' @
          render_members e 1 (accumulated_members (model b)) @ newline @ ''}'')"
proof -
  have 1: "fixed_members \<noteq> []" by (simp add: fixed_members_def)
  have 2: "accumulated_members (model b) \<noteq> []" by (simp add: accumulated_members_def)
  show ?thesis
    using 1 2 render_members_append [OF 1 2, of e 1]
    by (simp add: MarshalIndent_def Data_json_modelData indent_def)
qed

text \<open>
  C8. The bytes of the manifest depend on the contents of the accumulator only: two
  accumulators with the same paths, lists and motion entries, however their motion maps
  enumerate the entries, are serialised to the same bytes, since map keys are written in
  sorted order. The bytes always are an opening brace, the fixed members (version, layout,
  hit areas, the same for every model), a comma, the members read from the accumulator, a
  line break and a closing brace; and these are the bytes \<open>createModelData\<close> puts into the
  manifest file when the write succeeds.
\<close>

theorem manifest_bytes_depend_on_contents_only:
  "(same_contents (model b) (model b') \<longrightarrow>
      MarshalIndent e (modelData b) = MarshalIndent e (modelData b'))
   \<and> MarshalIndent e (modelData b) =
       Inr (''{'' @ render_members e 1 fixed_members @ '','' @
            render_members e 1 (accumulated_members (model b)) @ newline @ ''}'')
   \<and> (os_WriteFile e (modelJSONPath e b) = WriteOK \<longrightarrow>
        files (snd (createModelData e b w)) (modelJSONPath e b) =
          Some (''{'' @ render_members e 1 fixed_members @ '','' @
                render_members e 1 (accumulated_members (model b)) @ newline @ ''}''))"
proof -
  have "MarshalIndent e (modelData b) = MarshalIndent e (modelData b')"
    if "same_contents (model b) (model b')"
    using accumulated_members_same [OF that]
    by (simp add: MarshalIndent_modelData)
  moreover have "files (snd (createModelData e b w)) (modelJSONPath e b) =
          Some (''{'' @ render_members e 1 fixed_members @ '','' @
                render_members e 1 (accumulated_members (model b)) @ newline @ ''}'')"
    if "os_WriteFile e (modelJSONPath e b) = WriteOK"
    using createModelData_written [OF that, of w] MarshalIndent_modelData [of e b]
    by (simp add: MarshalIndent_def)
  ultimately show ?thesis using MarshalIndent_modelData [of e b] by blast
qed

theorem manifest_bytes_depend_on_contents_only_witness:
  "MarshalIndent example_env (modelData (example_builder\<lparr>model := new_model\<lparr>Live2dModel.Motions :=
        [(''idle01'', [\<lparr>MotionFile.File = ''data/motions/idle01.mtn''\<rparr>]),
         (''angry01'', [\<lparr>MotionFile.File = ''data/motions/angry01.mtn''\<rparr>])]\<rparr>\<rparr>))
   = MarshalIndent example_env (modelData (example_builder\<lparr>model := new_model\<lparr>Live2dModel.Motions :=
        [(''angry01'', [\<lparr>MotionFile.File = ''data/motions/angry01.mtn''\<rparr>]),
         (''idle01'', [\<lparr>MotionFile.File = ''data/motions/idle01.mtn''\<rparr>])]\<rparr>\<rparr>)) \<and>
   files (snd (createModelData example_env example_builder empty_world)) ''m/model.json'' \<noteq> None"
proof -
  let ?a = "new_model\<lparr>Live2dModel.Motions :=
        [(''idle01'', [\<lparr>MotionFile.File = ''data/motions/idle01.mtn''\<rparr>]),
         (''angry01'', [\<lparr>MotionFile.File = ''data/motions/angry01.mtn''\<rparr>])]\<rparr>"
  let ?a' = "new_model\<lparr>Live2dModel.Motions :=
        [(''angry01'', [\<lparr>MotionFile.File = ''data/motions/angry01.mtn''\<rparr>]),
         (''idle01'', [\<lparr>MotionFile.File = ''data/motions/idle01.mtn''\<rparr>])]\<rparr>"
  have m: "map_of (Live2dModel.Motions ?a) = map_of (Live2dModel.Motions ?a')"
    by (rule ext) simp
  have s: "same_contents (model (example_builder\<lparr>model := ?a\<rparr>)) (model (example_builder\<lparr>model := ?a'\<rparr>))"
    using m by (simp add: same_contents_def)
  have w: "os_WriteFile example_env (modelJSONPath example_env example_builder) = WriteOK"
    and p: "modelJSONPath example_env example_builder = ''m/model.json''"
    by (simp_all add: modelJSONPath_def example_defs)
  from manifest_bytes_depend_on_contents_only [of "example_builder\<lparr>model := ?a\<rparr>"
      "example_builder\<lparr>model := ?a'\<rparr>" example_env empty_world] s
  have 1: "MarshalIndent example_env (modelData (example_builder\<lparr>model := ?a\<rparr>))
      = MarshalIndent example_env (modelData (example_builder\<lparr>model := ?a'\<rparr>))" by blast
  from manifest_bytes_depend_on_contents_only [of example_builder example_builder example_env
      empty_world] w p
  have 2: "files (snd (createModelData example_env example_builder empty_world)) ''m/model.json'' \<noteq> None"
    by simp
  from 1 2 show ?thesis by blast
qed

end
